theory Spec2Isabelle
  imports Main "HOL-Library.Sublist"
begin

section \<open>Go library functions used by the sources\<close>

text \<open>
  Go strings are modelled as \<open>string\<close> (a list of bytes). The library models below are
  those of the Go standard library restricted to ASCII text: a byte above \<open>0x7F\<close> is
  carried through unchanged.
\<close>

definition lowerLetters :: string where
  "lowerLetters = ''abcdefghijklmnopqrstuvwxyz''"

definition upperLetters :: string where
  "upperLetters = ''ABCDEFGHIJKLMNOPQRSTUVWXYZ''"

definition toUpperChar :: "char \<Rightarrow> char" where
  \<comment> \<open>\<open>strings.ToUpper\<close> / \<open>unicode.ToTitle\<close> on one ASCII character.\<close>
  "toUpperChar c =
     (case map_of (zip lowerLetters upperLetters) c of Some u \<Rightarrow> u | None \<Rightarrow> c)"

definition digitChars :: string where
  "digitChars = ''0123456789''"

definition isSeparator :: "char \<Rightarrow> bool" where
  \<comment> \<open>\<open>strings.isSeparator\<close>: ASCII letters, digits and the underscore do not separate
      words, every other ASCII character does; a byte above \<open>0x7F\<close> counts as a letter.\<close>
  "isSeparator r =
     ((of_char r :: nat) \<le> 127 \<and>
      r \<notin> set digitChars \<and> r \<notin> set lowerLetters \<and> r \<notin> set upperLetters \<and>
      r \<noteq> CHR ''_'')"

text \<open>
  \<open>strings.Title\<close> maps over the runes with the previous rune in \<open>prev\<close>, which
  starts as a space; a rune that follows a separator is title-cased.
\<close>

fun Title_loop :: "char \<Rightarrow> string \<Rightarrow> string" where
  "Title_loop prev [] = []"
| "Title_loop prev (r # rest) =
     (if isSeparator prev then toUpperChar r else r) # Title_loop r rest"

definition Title :: "string \<Rightarrow> string" where
  "Title s = Title_loop CHR '' '' s"

text \<open>
  \<open>strings.ReplaceAll s old new\<close> (and \<open>strings.Replace\<close> with count \<open>-1\<close>): the
  occurrences of \<open>old\<close> are replaced from the left, without overlap. An empty \<open>old\<close>
  matches before every character and at the end.
\<close>

fun ReplaceAll :: "string \<Rightarrow> string \<Rightarrow> string \<Rightarrow> string" where
  "ReplaceAll [] old new = (if old = [] then new else [])"
| "ReplaceAll (c # cs) old new =
     (if old = [] then new @ concat (map (\<lambda>r. r # new) (c # cs))
      else if prefix old (c # cs) then new @ ReplaceAll (drop (length old) (c # cs)) old new
      else c # ReplaceAll cs old new)"

text \<open>
  The decimal rendering of a non-negative integer, as \<open>%v\<close> prints the loop counter.
\<close>

function showNat :: "nat \<Rightarrow> string" where
  "showNat n = (if n < 10 then [digitChars ! n] else showNat (n div 10) @ [digitChars ! (n mod 10)])"
  by pat_completeness auto
termination
  by (relation "measure id") auto

declare showNat.simps [simp del]

text \<open>
  \<open>strings.Split s sep\<close>: the pieces of \<open>s\<close> between the occurrences of \<open>sep\<close>, found
  from the left; \<open>cur\<close> collects the piece being read. An empty \<open>sep\<close> splits after
  every character.
\<close>

fun Split_from :: "string \<Rightarrow> string \<Rightarrow> string \<Rightarrow> string list" where
  "Split_from cur [] sep = [cur]"
| "Split_from cur (c # cs) sep =
     (if sep \<noteq> [] \<and> prefix sep (c # cs)
      then cur # Split_from [] (drop (length sep) (c # cs)) sep
      else Split_from (cur @ [c]) cs sep)"

definition Split :: "string \<Rightarrow> string \<Rightarrow> string list" where
  "Split s sep = (if sep = [] then map (\<lambda>c. [c]) s else Split_from [] s sep)"


text \<open>
  \<open>strconv.Quote\<close>, which \<open>%q\<close> applies to a string: the text between double quotes,
  with the quote and the backslash escaped, printable characters as they are, the control
  characters by their escapes.
\<close>

definition lowerhex :: string where
  "lowerhex = ''0123456789abcdef''"

definition quoteChar :: "char \<Rightarrow> string" where
  "quoteChar c =
     (let n = (of_char c :: nat)
      in if c = CHR 0x22 \<or> c = CHR 0x5C then [CHR 0x5C, c]
         else if (32 \<le> n \<and> n \<le> 126) \<or> 128 \<le> n then [c]
         else if n = 7 then [CHR 0x5C, CHR ''a'']
         else if n = 8 then [CHR 0x5C, CHR ''b'']
         else if n = 12 then [CHR 0x5C, CHR ''f'']
         else if n = 10 then [CHR 0x5C, CHR ''n'']
         else if n = 13 then [CHR 0x5C, CHR ''r'']
         else if n = 9 then [CHR 0x5C, CHR ''t'']
         else if n = 11 then [CHR 0x5C, CHR ''v'']
         else [CHR 0x5C, CHR ''x'', lowerhex ! (n div 16), lowerhex ! (n mod 16)])"

definition Quote :: "string \<Rightarrow> string" where
  "Quote s = [CHR 0x22] @ concat (map quoteChar s) @ [CHR 0x22]"


datatype Value = VNil | VString string | VInt int | VBool bool | VOther string string



section \<open>pkg/utils/names.go\<close>





section \<open>Unique resource names\<close>

text \<open>
  The part of a decoded \<open>unstructured.Unstructured\<close> object that the sources read, by
  the accessor that reads it. An absent entry reads as the empty string.
\<close>

record Unstructured =
  GetAPIVersion :: string
  GetKind :: string
  GetNamespace :: string
  GetName :: string

text \<open>\<open>generateUniqueResourceName\<close> of package \<open>kinds\<close>.\<close>

definition generateUniqueResourceName :: "Unstructured \<Rightarrow> string" where
  "generateUniqueResourceName object =
     (let resourceName = ReplaceAll (Title (GetName object)) ''-'' '''';
          resourceName = ReplaceAll resourceName ''.'' '''';
          resourceName = ReplaceAll resourceName '':'' '''';
          resourceName = ReplaceAll resourceName ''!!Start'' '''';
          resourceName = ReplaceAll resourceName ''!!End'' '''';
          resourceName = ReplaceAll resourceName ''ParentSpec'' '''';
          resourceName = ReplaceAll resourceName ''CollectionSpec'' '''';
          resourceName = ReplaceAll resourceName '' '' '''';
          namespaceName = ReplaceAll (Title (GetNamespace object)) ''-'' '''';
          namespaceName = ReplaceAll namespaceName ''.'' '''';
          namespaceName = ReplaceAll namespaceName '':'' '''';
          namespaceName = ReplaceAll namespaceName ''!!Start'' '''';
          namespaceName = ReplaceAll namespaceName ''!!End'' '''';
          namespaceName = ReplaceAll namespaceName ''ParentSpec'' '''';
          namespaceName = ReplaceAll namespaceName ''CollectionSpec'' '''';
          namespaceName = ReplaceAll namespaceName '' '' ''''
      in GetKind object @ namespaceName @ resourceName)"

text \<open>\<open>generateUniqueResourceName\<close> of package \<open>v1\<close>, the earlier revision.\<close>

definition generateUniqueResourceName_v1 :: "Unstructured \<Rightarrow> string" where
  "generateUniqueResourceName_v1 object =
     (let resourceName = ReplaceAll (Title (GetName object)) ''-'' '''';
          resourceName = ReplaceAll resourceName ''.'' '''';
          resourceName = ReplaceAll resourceName '':'' ''''
      in GetKind object @ resourceName)"

text \<open>
  The specification's \<open>sanitize\<close>: title capitalisation, then the tokens removed one
  after the other.
\<close>

definition residueTokens :: "string list" where
  "residueTokens =
     [''-'', ''.'', '':'', ''!!Start'', ''!!End'', ''ParentSpec'', ''CollectionSpec'', '' '']"

definition stripTokens :: "string list \<Rightarrow> string \<Rightarrow> string" where
  "stripTokens toks s = foldl (\<lambda>acc tok. ReplaceAll acc tok '''') s toks"

definition sanitize :: "string \<Rightarrow> string" where
  "sanitize s = stripTokens residueTokens (Title s)"

section \<open>Source files and the deduplication of their names\<close>

record ChildResource =
  Name :: string
  UniqueName :: string
  Group :: string
  Version :: string
  Kind :: string
  SourceCode :: string
  StaticContent :: string

record SourceFile =
  Filename :: string
  Children :: "ChildResource list"

text \<open>
  \<open>deduplicateFileNames\<close> (the same body in both revisions). The inner loop compares the
  file name that the range variable \<open>sourceFile\<close> copied at the start of the iteration,
  \<open>orig\<close>, with every entry of \<open>fileNames\<close>, skipping the empty ones; \<open>cur\<close> is
  \<open>sourceFiles[i].Filename\<close>. \<open>strings.Split\<close> with a non-empty separator returns at
  least one piece, so \<open>fields[0]\<close> is the head of the list.
\<close>

fun dedup_inner :: "string \<Rightarrow> string list \<Rightarrow> nat \<Rightarrow> string \<Rightarrow> string" where
  "dedup_inner orig [] count cur = cur"
| "dedup_inner orig (fileName # rest) count cur =
     (if fileName = [] then dedup_inner orig rest count cur
      else if orig = fileName
      then dedup_inner orig rest (count + 1)
             (hd (Split orig ''.go'') @ ''_'' @ showNat (count + 1) @ ''.go'')
      else dedup_inner orig rest count cur)"

text \<open>
  The outer loop, at index \<open>i\<close>: the entry is renamed, and \<open>fileNames[i]\<close> receives
  the name the range variable holds, which is the one before the renaming.
\<close>

fun dedup_loop :: "nat \<Rightarrow> SourceFile list \<Rightarrow> string list \<Rightarrow> SourceFile list" where
  "dedup_loop i [] fileNames = []"
| "dedup_loop i (sourceFile # rest) fileNames =
     sourceFile\<lparr>Filename := dedup_inner (Filename sourceFile) fileNames 0 (Filename sourceFile)\<rparr>
       # dedup_loop (Suc i) rest (fileNames[i := Filename sourceFile])"

definition deduplicateFileNames :: "SourceFile list \<Rightarrow> SourceFile list" where
  "deduplicateFileNames sourceFiles =
     dedup_loop 0 sourceFiles
       ((replicate (length sourceFiles + 1) [])[length sourceFiles := ''resources.go''])"


text \<open>
  The names the deduplication hands out, in closed form: the \<open>k\<close>-th name for a
  candidate, and the names of a list of candidates given those seen before.
\<close>

definition suffixedName :: "string \<Rightarrow> nat \<Rightarrow> string" where
  "suffixedName base k =
     (if k = 0 then base else hd (Split base ''.go'') @ ''_'' @ showNat k @ ''.go'')"

fun assignNames :: "string list \<Rightarrow> string list \<Rightarrow> string list" where
  "assignNames seen [] = []"
| "assignNames seen (orig # rest) =
     (if orig = [] then orig else suffixedName orig (count_list seen orig))
       # assignNames (seen @ [orig]) rest"

section \<open>API fields and markers\<close>

text \<open>
  Modelled from the spec: the enumeration of field types is declared outside these
  sources, which name \<open>FieldString\<close> and \<open>FieldStruct\<close>. The specification lists String,
  Integer, Boolean, Float, Composite and List-of-scalar.
\<close>

datatype FieldType = FieldString | FieldInt | FieldBool | FieldFloat | FieldStruct | FieldList

text \<open>
  \<open>APISpecField\<close> and its method \<open>setSampleAndDefault\<close>.
\<close>

record APISpecField =
  FieldName :: string
  ManifestFieldName :: string
  DataType :: FieldType
  DefaultVal :: string
  ZeroVal :: string
  APISpecContent :: string
  SampleField :: string
  DocumentationLines :: "string list"


section \<open>Manifest processing\<close>

type_synonym error = string

definition formatProcessError :: "string \<Rightarrow> error \<Rightarrow> error" where
  "formatProcessError manifestFile err = ''error processing file '' @ manifestFile @ ''; '' @ err"

text \<open>
  Modelled from the spec: the marker types are declared outside these sources. The record
  holds the fields that \<open>processMarkerResults\<close> reads, which are the attributes the
  specification lists; \<open>FieldMarker\<close> and \<open>CollectionFieldMarker\<close> carry the same fields, and
  the type switch on \<open>markerResult.Object\<close> is a case distinction on \<open>MarkerObject\<close>.
\<close>

record Marker =
  Name :: string
  Type :: FieldType
  Description :: "string option"
  Default :: Value
  originalValue :: Value

datatype MarkerObject = FieldMarker Marker | CollectionFieldMarker Marker | OtherObject

record YAMLResult =
  Object :: MarkerObject

text \<open>
  \<open>WorkloadSpec\<close> of package \<open>v1\<close>. The pointers are assigned by \<open>init\<close> before any
  use, so the fields hold the values pointed to. The tree of API fields (\<open>'f\<close>) and the
  elements of the two rule lists (\<open>'r\<close>, \<open>'o\<close>) are declared outside these sources.
\<close>

record ('f, 'r, 'o) WorkloadSpec =
  Resources :: "string list"
  APISpecFields :: 'f
  SourceFiles :: "SourceFile list"
  RBACRules :: "'r list"
  OwnershipRules :: "'o list"
  collection :: bool
  collectionResources :: bool

text \<open>
  What \<open>processManifests\<close> calls and these sources do not hold: the file system, the
  marker inspector, the YAML and Kubernetes libraries, the code generator, and the methods
  of the API field tree and of the rule lists. \<open>JoinDir workloadPath manifestFile\<close> is
  \<open>filepath.Join(filepath.Dir(workloadPath), manifestFile)\<close>; \<open>newAPIFields\<close> builds the
  struct literal of \<open>init\<close> from its name, type, tags and sample; \<open>AddField\<close> returns the
  tree it leaves behind together with its error.
\<close>

record ('n, 'i, 'f, 'r, 'o) env =
  JoinDir :: "string \<Rightarrow> string \<Rightarrow> string"
  ReadFile :: "string \<Rightarrow> error + string"
  InitializeMarkerInspector :: "error + 'i"
  InspectYAML :: "'i \<Rightarrow> string \<Rightarrow> error + ('n list \<times> YAMLResult list)"
  Marshal :: "'n \<Rightarrow> error + string"
  extractManifests :: "string \<Rightarrow> string list"
  DecodeInto :: "string \<Rightarrow> error + Unstructured"
  Generate :: "string \<Rightarrow> string \<Rightarrow> error + string"
  AddField :: "'f \<Rightarrow> string \<Rightarrow> FieldType \<Rightarrow> string list \<Rightarrow> Value \<Rightarrow> bool \<Rightarrow> error option \<times> 'f"
  newAPIFields :: "string \<Rightarrow> FieldType \<Rightarrow> string \<Rightarrow> string \<Rightarrow> 'f"
  determineSourceFileName :: "string \<Rightarrow> SourceFile"
  coreRBACGroup :: string
  rbacGroupFromGroup :: "string \<Rightarrow> string"
  addRulesForManifest :: "'r list \<Rightarrow> string \<Rightarrow> string \<Rightarrow> Unstructured \<Rightarrow> 'r list"
  addOrUpdateOwnership :: "'o list \<Rightarrow> string \<Rightarrow> string \<Rightarrow> string \<Rightarrow> 'o list"

definition init :: "('n, 'i, 'f, 'r, 'o) env \<Rightarrow> ('f, 'r, 'o) WorkloadSpec \<Rightarrow> ('f, 'r, 'o) WorkloadSpec" where
  "init env ws =
     ws\<lparr>APISpecFields :=
           newAPIFields env ''Spec'' FieldStruct (''`json: '' @ Quote ''spec'' @ ''`'') ''spec:'',
        OwnershipRules := [],
        RBACRules := [],
        SourceFiles := []\<rparr>"

text \<open>
  \<open>processMarkerResults\<close>. Both marker cases compute the comments and the sample value
  and call \<open>AddField\<close> in the same way: \<open>markerComments\<close>, \<open>markerSample\<close> (the pair
  \<open>defaultFound\<close>, \<open>sampleVal\<close>) and \<open>addMarkerField\<close>.
\<close>

definition markerComments :: "Marker \<Rightarrow> string list" where
  "markerComments r =
     (case Description r of None \<Rightarrow> [] | Some d \<Rightarrow> [] @ Split d [CHR 0x0A])"

definition markerSample :: "Marker \<Rightarrow> bool \<times> Value" where
  "markerSample r = (if Default r \<noteq> VNil then (True, Default r) else (False, originalValue r))"

definition addMarkerField ::
  "('n, 'i, 'f, 'r, 'o) env \<Rightarrow> ('f, 'r, 'o) WorkloadSpec \<Rightarrow> Marker
     \<Rightarrow> error option \<times> ('f, 'r, 'o) WorkloadSpec" where
  "addMarkerField env ws r =
     (let comments = markerComments r;
          (defaultFound, sampleVal) = markerSample r;
          (err, apiFields) = AddField env (APISpecFields ws) (Name r) (Type r) comments sampleVal
                            defaultFound
      in (err, ws\<lparr>APISpecFields := apiFields\<rparr>))"

fun processMarkerResults ::
  "('n, 'i, 'f, 'r, 'o) env \<Rightarrow> ('f, 'r, 'o) WorkloadSpec \<Rightarrow> YAMLResult list
     \<Rightarrow> error option \<times> ('f, 'r, 'o) WorkloadSpec" where
  "processMarkerResults env ws [] = (None, ws)"
| "processMarkerResults env ws (markerResult # rest) =
     (case Object markerResult of
        FieldMarker r \<Rightarrow>
          if collection ws \<and> \<not> collectionResources ws
          then processMarkerResults env ws rest
          else (case addMarkerField env ws r of
                  (Some err, ws') \<Rightarrow> (Some err, ws')
                | (None, ws') \<Rightarrow> processMarkerResults env ws' rest)
      | CollectionFieldMarker r \<Rightarrow>
          if \<not> collection ws
          then processMarkerResults env ws rest
          else (case addMarkerField env ws r of
                  (Some err, ws') \<Rightarrow> (Some err, ws')
                | (None, ws') \<Rightarrow> processMarkerResults env ws' rest)
      | OtherObject \<Rightarrow> processMarkerResults env ws rest)"

text \<open>
  The marker that an inspected object hands to \<open>addMarkerField\<close> in a unit of work:
  the two guards of \<open>processMarkerResults\<close>, read as one function. An object with
  no marker in scope is passed over.
\<close>

definition markerInScope :: "('f, 'r, 'o) WorkloadSpec \<Rightarrow> MarkerObject \<Rightarrow> Marker option" where
  "markerInScope ws obj =
     (case obj of
        FieldMarker r \<Rightarrow> if collection ws \<and> \<not> collectionResources ws then None else Some r
      | CollectionFieldMarker r \<Rightarrow> if \<not> collection ws then None else Some r
      | OtherObject \<Rightarrow> None)"

text \<open>
  \<open>processMarkers\<close>. \<open>processMarkers_content\<close> is the function up to the call of
  \<open>processMarkerResults\<close>, with the marshalled documents in \<open>manifestContent\<close>;
  \<open>processMarkers\<close> continues with the replacement of the collection marker and the
  extraction of the manifests. Writing to a \<open>bytes.Buffer\<close> does not fail.
\<close>

fun marshalNodes :: "('n, 'i, 'f, 'r, 'o) env \<Rightarrow> 'n list \<Rightarrow> string \<Rightarrow> error + string" where
  "marshalNodes env [] buf = Inr buf"
| "marshalNodes env (node # rest) buf =
     (case Marshal env node of
        Inl err \<Rightarrow> Inl err
      | Inr m \<Rightarrow> marshalNodes env rest (buf @ ''---'' @ [CHR 0x0A] @ m))"

definition processMarkers_content ::
  "('n, 'i, 'f, 'r, 'o) env \<Rightarrow> ('f, 'r, 'o) WorkloadSpec \<Rightarrow> string
     \<Rightarrow> (error + string) \<times> ('f, 'r, 'o) WorkloadSpec" where
  "processMarkers_content env ws manifestFile =
     (case ReadFile env manifestFile of
        Inl err \<Rightarrow> (Inl (formatProcessError manifestFile err), ws)
      | Inr manifestContent \<Rightarrow>
     (case InitializeMarkerInspector env of
        Inl err \<Rightarrow> (Inl (formatProcessError manifestFile err), ws)
      | Inr insp \<Rightarrow>
     (case InspectYAML env insp manifestContent of
        Inl err \<Rightarrow> (Inl (formatProcessError manifestFile err), ws)
      | Inr (nodes, markerResults) \<Rightarrow>
     (case marshalNodes env nodes [] of
        Inl err \<Rightarrow> (Inl (formatProcessError manifestFile err), ws)
      | Inr buf \<Rightarrow>
     (case processMarkerResults env ws markerResults of
        (Some err, ws') \<Rightarrow> (Inl (formatProcessError manifestFile err), ws')
      | (None, ws') \<Rightarrow> (Inr buf, ws'))))))"

definition processMarkers ::
  "('n, 'i, 'f, 'r, 'o) env \<Rightarrow> ('f, 'r, 'o) WorkloadSpec \<Rightarrow> string
     \<Rightarrow> (error + string list) \<times> ('f, 'r, 'o) WorkloadSpec" where
  "processMarkers env ws manifestFile =
     (case processMarkers_content env ws manifestFile of
        (Inl err, ws') \<Rightarrow> (Inl err, ws')
      | (Inr manifestContent, ws') \<Rightarrow>
          (let manifestContent =
                 (if collection ws' \<and> collectionResources ws'
                  then ReplaceAll manifestContent ''!!var collection'' ''!!var parent''
                  else manifestContent)
           in (Inr (extractManifests env manifestContent), ws')))"

text \<open>
  \<open>versionGroupFromAPIVersion\<close>. \<open>strings.Split\<close> with the separator \<open>/\<close> returns at
  least one element, so both index reads are in range.
\<close>

definition versionGroupFromAPIVersion ::
  "('n, 'i, 'f, 'r, 'o) env \<Rightarrow> string \<Rightarrow> string \<times> string" where
  "versionGroupFromAPIVersion env apiVersion =
     (let apiVersionElements = Split apiVersion ''/''
      in if length apiVersionElements = 1
         then (apiVersionElements ! 0, coreRBACGroup env)
         else (apiVersionElements ! 1, rbacGroupFromGroup env (apiVersionElements ! 0)))"

text \<open>
  \<open>processManifests\<close>: the inner loop over the manifests of one file
  (\<open>processManifestObjects\<close>), the body of the outer loop (\<open>processManifestFile\<close>), the
  outer loop, and the function. After \<open>init\<close> the pointer \<open>ws.SourceFiles\<close> is not nil,
  so the test for nil in the loop body does not fire.
\<close>

fun processManifestObjects ::
  "('n, 'i, 'f, 'r, 'o) env \<Rightarrow> ('f, 'r, 'o) WorkloadSpec \<Rightarrow> string \<Rightarrow> string list
     \<Rightarrow> ChildResource list \<Rightarrow> (error + ChildResource list) \<times> ('f, 'r, 'o) WorkloadSpec" where
  "processManifestObjects env ws manifestFile [] childResources = (Inr childResources, ws)"
| "processManifestObjects env ws manifestFile (manifest # rest) childResources =
     (case DecodeInto env manifest of
        Inl err \<Rightarrow> (Inl (formatProcessError manifestFile err), ws)
      | Inr manifestObject \<Rightarrow>
          (let resourceUniqueName = generateUniqueResourceName_v1 manifestObject;
               (resourceVersion, resourceGroup) =
                  versionGroupFromAPIVersion env (GetAPIVersion manifestObject);
               ws = ws\<lparr>RBACRules := addRulesForManifest env (RBACRules ws)
                                        (GetKind manifestObject) resourceGroup manifestObject\<rparr>;
               ws = ws\<lparr>OwnershipRules := addOrUpdateOwnership env (OwnershipRules ws)
                                        (GetAPIVersion manifestObject) (GetKind manifestObject)
                                        resourceGroup\<rparr>;
               resource = \<lparr>ChildResource.Name = GetName manifestObject,
                           UniqueName = resourceUniqueName,
                           Group = resourceGroup,
                           Version = resourceVersion,
                           Kind = GetKind manifestObject,
                           SourceCode = [],
                           StaticContent = []\<rparr>
           in (case Generate env manifest ''resourceObj'' of
                 Inl err \<Rightarrow> (Inl (formatProcessError manifestFile err), ws)
               | Inr resourceDefinition \<Rightarrow>
                   processManifestObjects env ws manifestFile rest
                     (childResources @ [resource\<lparr>SourceCode := resourceDefinition,
                                                 StaticContent := manifest\<rparr>]))))"

definition processManifestFile ::
  "('n, 'i, 'f, 'r, 'o) env \<Rightarrow> string \<Rightarrow> ('f, 'r, 'o) WorkloadSpec \<Rightarrow> string
     \<Rightarrow> error option \<times> ('f, 'r, 'o) WorkloadSpec" where
  "processManifestFile env workloadPath ws manifestFile =
     (case processMarkers env ws (JoinDir env workloadPath manifestFile) of
        (Inl err, ws') \<Rightarrow> (Some err, ws')
      | (Inr manifests, ws') \<Rightarrow>
          (let sourceFile = determineSourceFileName env manifestFile
           in (case processManifestObjects env ws' manifestFile manifests [] of
                 (Inl err, ws'') \<Rightarrow> (Some err, ws'')
               | (Inr childResources, ws'') \<Rightarrow>
                   (None, ws''\<lparr>SourceFiles :=
                                  SourceFiles ws'' @ [sourceFile\<lparr>Children := childResources\<rparr>]\<rparr>))))"

fun processManifests_loop ::
  "('n, 'i, 'f, 'r, 'o) env \<Rightarrow> string \<Rightarrow> ('f, 'r, 'o) WorkloadSpec \<Rightarrow> string list
     \<Rightarrow> error option \<times> ('f, 'r, 'o) WorkloadSpec" where
  "processManifests_loop env workloadPath ws [] = (None, ws)"
| "processManifests_loop env workloadPath ws (manifestFile # rest) =
     (case processManifestFile env workloadPath ws manifestFile of
        (Some err, ws') \<Rightarrow> (Some err, ws')
      | (None, ws') \<Rightarrow> processManifests_loop env workloadPath ws' rest)"

definition processManifests ::
  "('n, 'i, 'f, 'r, 'o) env \<Rightarrow> ('f, 'r, 'o) WorkloadSpec \<Rightarrow> string \<Rightarrow> bool \<Rightarrow> bool
     \<Rightarrow> error option \<times> ('f, 'r, 'o) WorkloadSpec" where
  "processManifests env ws workloadPath coll collResources =
     (let ws = init env ws;
          ws = ws\<lparr>collection := coll\<rparr>;
          ws = ws\<lparr>collectionResources := collResources\<rparr>
      in (case processManifests_loop env workloadPath ws (Resources ws) of
            (Some err, ws') \<Rightarrow> (Some err, ws')
          | (None, ws') \<Rightarrow> (None, ws'\<lparr>SourceFiles := deduplicateFileNames (SourceFiles ws')\<rparr>)))"


text \<open>
  The kind of a marker object, and the state in which the loop of \<open>processManifests\<close>
  starts.
\<close>

definition isFieldMarker :: "MarkerObject \<Rightarrow> bool" where
  "isFieldMarker obj = (case obj of FieldMarker r \<Rightarrow> True | _ \<Rightarrow> False)"

definition isCollectionFieldMarker :: "MarkerObject \<Rightarrow> bool" where
  "isCollectionFieldMarker obj = (case obj of CollectionFieldMarker r \<Rightarrow> True | _ \<Rightarrow> False)"

definition start ::
  "('n, 'i, 'f, 'r, 'o) env \<Rightarrow> ('f, 'r, 'o) WorkloadSpec \<Rightarrow> bool \<Rightarrow> bool
     \<Rightarrow> ('f, 'r, 'o) WorkloadSpec" where
  "start env ws coll collResources =
     (init env ws)\<lparr>collection := coll, collectionResources := collResources\<rparr>"

section \<open>The tree of API fields\<close>










section \<open>Merging the component schemas into the collection\<close>

text \<open>
  \<open>SetResources\<close> of \<open>WorkloadCollection\<close>. The spec fields are pointers to
  \<open>APISpecField\<close> objects: an address is a number, the store maps an address to the object
  there, and a list of spec fields is a list of addresses. The result of the package's
  \<open>processMarkers\<close> function, which these sources do not hold, is the parameter \<open>pm\<close>;
  the objects it returns are in the store. The records hold the fields the method reads
  and writes.
\<close>

type_synonym addr = nat
type_synonym heap = "addr \<Rightarrow> APISpecField"

record ('r, 'o) ProcessResult =
  ResultSourceFiles :: "SourceFile list"
  ResultRBACRules :: "'r list"
  ResultOwnershipRules :: "'o list"
  SpecFields :: "addr list"

record Component =
  ConfigPath :: string
  ComponentResources :: "string list"

record ('r, 'o) WorkloadCollection =
  CollectionResources :: "string list"
  Components :: "Component list"
  Spec_SourceFiles :: "SourceFile list"
  Spec_RBACRules :: "'r list"
  Spec_OwnershipRules :: "'o list"
  Spec_APISpecFields :: "addr list"

text \<open>
  The inner loop over \<open>specFields\<close> for one component field \<open>csf\<close>, with the variable
  \<open>fieldPresent\<close>; the assignment to \<open>specFields[i].DocumentationLines\<close> writes to the
  object that \<open>sf\<close> points to.
\<close>

fun scanSpecFields :: "heap \<Rightarrow> addr \<Rightarrow> addr list \<Rightarrow> bool \<Rightarrow> heap \<times> bool" where
  "scanSpecFields h csf [] fieldPresent = (h, fieldPresent)"
| "scanSpecFields h csf (sf # rest) fieldPresent =
     (if FieldName (h sf) = FieldName (h csf)
      then scanSpecFields
             (if length (DocumentationLines (h csf)) > 0
              then h(sf := (h sf)\<lparr>DocumentationLines := DocumentationLines (h csf)\<rparr>)
              else h)
             csf rest True
      else scanSpecFields h csf rest fieldPresent)"

fun addSpecFields :: "heap \<Rightarrow> addr list \<Rightarrow> addr list \<Rightarrow> heap \<times> addr list" where
  "addSpecFields h specFields [] = (h, specFields)"
| "addSpecFields h specFields (csf # rest) =
     (case scanSpecFields h csf specFields False of
        (h', fieldPresent) \<Rightarrow>
          addSpecFields h' (if \<not> fieldPresent then specFields @ [csf] else specFields) rest)"

fun mergeComponents ::
  "(string \<Rightarrow> string list \<Rightarrow> bool \<Rightarrow> bool \<Rightarrow> error + ('r, 'o) ProcessResult)
     \<Rightarrow> heap \<Rightarrow> addr list \<Rightarrow> Component list \<Rightarrow> (error + addr list) \<times> heap" where
  "mergeComponents pm h specFields [] = (Inr specFields, h)"
| "mergeComponents pm h specFields (component # rest) =
     (case pm (ConfigPath component) (ComponentResources component) True False of
        Inl err \<Rightarrow> (Inl err, h)
      | Inr componentResources \<Rightarrow>
          (case addSpecFields h specFields (SpecFields componentResources) of
             (h', specFields') \<Rightarrow> mergeComponents pm h' specFields' rest))"

definition SetResources ::
  "(string \<Rightarrow> string list \<Rightarrow> bool \<Rightarrow> bool \<Rightarrow> error + ('r, 'o) ProcessResult)
     \<Rightarrow> ('r, 'o) WorkloadCollection \<Rightarrow> heap \<Rightarrow> string
     \<Rightarrow> error option \<times> ('r, 'o) WorkloadCollection \<times> heap" where
  "SetResources pm c h workloadPath =
     (case pm workloadPath (CollectionResources c) True True of
        Inl err \<Rightarrow> (Some err, c, h)
      | Inr resources \<Rightarrow>
          (let c = c\<lparr>Spec_SourceFiles := ResultSourceFiles resources,
                     Spec_RBACRules := ResultRBACRules resources,
                     Spec_OwnershipRules := ResultOwnershipRules resources\<rparr>
           in (case mergeComponents pm h (SpecFields resources) (Components c) of
                 (Inl err, h') \<Rightarrow> (Some err, c, h')
               | (Inr specFields, h') \<Rightarrow> (None, c\<lparr>Spec_APISpecFields := specFields\<rparr>, h'))))"

text \<open>
  For the statements below: the last non-empty documentation among the entries of a name,
  the store after one scan, the invariant of the merge, the entries of the components, and
  equality of two stores up to the documentation lines.
\<close>

definition lastNonEmptyDocs :: "heap \<Rightarrow> addr list \<Rightarrow> string \<Rightarrow> string list" where
  "lastNonEmptyDocs h as n =
     (let ds = filter (\<lambda>d. d \<noteq> [])
                 (map (\<lambda>a. DocumentationLines (h a)) (filter (\<lambda>a. FieldName (h a) = n) as))
      in if ds = [] then [] else last ds)"

definition overwriteDocs :: "heap \<Rightarrow> addr \<Rightarrow> addr list \<Rightarrow> heap" where
  "overwriteDocs h csf specFields =
     (\<lambda>a. if a \<in> set specFields \<and> FieldName (h a) = FieldName (h csf)
          then (h a)\<lparr>DocumentationLines := DocumentationLines (h csf)\<rparr> else h a)"

definition mergeInv :: "heap \<Rightarrow> addr list \<Rightarrow> heap \<Rightarrow> addr list \<Rightarrow> bool" where
  "mergeInv h seen g specFields \<longleftrightarrow>
     set specFields \<subseteq> set seen
     \<and> distinct (map (\<lambda>a. FieldName (h a)) specFields)
     \<and> (\<lambda>a. FieldName (h a)) ` set specFields = (\<lambda>a. FieldName (h a)) ` set seen
     \<and> (\<forall>a. FieldName (g a) = FieldName (h a))
     \<and> (\<forall>a \<in> set specFields.
           DocumentationLines (g a) = lastNonEmptyDocs h seen (FieldName (h a)))
     \<and> (\<forall>a. a \<notin> set seen \<longrightarrow> g a = h a)"

definition componentEntries ::
  "(string \<Rightarrow> string list \<Rightarrow> bool \<Rightarrow> bool \<Rightarrow> error + ('r, 'o) ProcessResult)
     \<Rightarrow> Component list \<Rightarrow> addr set" where
  "componentEntries pm comps =
     (\<Union>component \<in> set comps.
        case pm (ConfigPath component) (ComponentResources component) True False of
          Inl err \<Rightarrow> {}
        | Inr componentResources \<Rightarrow> set (SpecFields componentResources))"

definition sameButDocs :: "heap \<Rightarrow> heap \<Rightarrow> bool" where
  "sameButDocs h h' \<longleftrightarrow>
     (\<forall>a. (h' a)\<lparr>DocumentationLines := DocumentationLines (h a)\<rparr> = h a)"

section \<open>Sample inputs\<close>

definition sampleMarkers :: "YAMLResult list" where
  "sampleMarkers =
     [\<lparr>Object = CollectionFieldMarker
         \<lparr>Name = ''name'', Type = FieldString, Description = None, Default = VNil,
          originalValue = VString ''widget''\<rparr>\<rparr>,
      \<lparr>Object = FieldMarker
         \<lparr>Name = ''replicas'', Type = FieldInt, Description = Some ''Number of replicas'',
          Default = VNil, originalValue = VInt 3\<rparr>\<rparr>]"

definition sampleEnv :: "(string, unit, (string \<times> Value \<times> bool) list, string, string) env" where
  "sampleEnv =
     \<lparr>JoinDir = (\<lambda>workloadPath manifestFile. ''dir/'' @ manifestFile),
      ReadFile = (\<lambda>f. if f = ''dir/a.yaml'' then Inr ''name: !!var collection.name''
                       else Inl ''no such file''),
      InitializeMarkerInspector = Inr (),
      InspectYAML = (\<lambda>insp content. Inr ([content], sampleMarkers)),
      Marshal = (\<lambda>node. Inr node),
      extractManifests = (\<lambda>content. [content]),
      DecodeInto = (\<lambda>manifest. Inr \<lparr>GetAPIVersion = ''v1'', GetKind = ''ConfigMap'',
                                      GetNamespace = ''default'', GetName = ''app-config''\<rparr>),
      Generate = (\<lambda>manifest varName. Inr (''var '' @ varName)),
      AddField = (\<lambda>apiFields name typ comments sampleVal defaultFound.
                    (None, apiFields @ [(name, sampleVal, defaultFound)])),
      newAPIFields = (\<lambda>name typ tags sample. []),
      determineSourceFileName = (\<lambda>manifestFile. \<lparr>Filename = ''a.go'', Children = []\<rparr>),
      coreRBACGroup = ''core'',
      rbacGroupFromGroup = (\<lambda>group. group),
      addRulesForManifest = (\<lambda>rules kind group obj. rules @ [kind]),
      addOrUpdateOwnership = (\<lambda>rules apiVersion kind group. rules @ [kind])\<rparr>"

definition sampleSpec ::
  "string list \<Rightarrow> ((string \<times> Value \<times> bool) list, string, string) WorkloadSpec" where
  "sampleSpec files =
     \<lparr>Resources = files, APISpecFields = [], SourceFiles = [], RBACRules = [],
      OwnershipRules = [], collection = False, collectionResources = False\<rparr>"



definition sampleField :: "string \<Rightarrow> string list \<Rightarrow> APISpecField" where
  "sampleField n docs =
     \<lparr>FieldName = n, ManifestFieldName = n, DataType = FieldString, DefaultVal = [], ZeroVal = [],
      APISpecContent = [], SampleField = [], DocumentationLines = docs\<rparr>"

definition sampleResult :: "addr list \<Rightarrow> (string, string) ProcessResult" where
  "sampleResult addrs =
     \<lparr>ResultSourceFiles = [], ResultRBACRules = [], ResultOwnershipRules = [],
      SpecFields = addrs\<rparr>"

definition samplePM ::
  "string \<Rightarrow> string list \<Rightarrow> bool \<Rightarrow> bool \<Rightarrow> error + (string, string) ProcessResult" where
  "samplePM path resources coll collResources =
     (if path = ''collection.yaml'' then Inr (sampleResult [0])
      else if path = ''a.yaml'' then Inr (sampleResult [1])
      else if path = ''b.yaml'' then Inr (sampleResult [2])
      else Inl ''no such file'')"

definition sampleCollection :: "(string, string) WorkloadCollection" where
  "sampleCollection =
     \<lparr>CollectionResources = [], 
      Components = [\<lparr>ConfigPath = ''a.yaml'', ComponentResources = []\<rparr>,
                    \<lparr>ConfigPath = ''b.yaml'', ComponentResources = []\<rparr>],
      Spec_SourceFiles = [], Spec_RBACRules = [], Spec_OwnershipRules = [],
      Spec_APISpecFields = []\<rparr>"

definition sampleHeap :: "string list \<Rightarrow> string list \<Rightarrow> heap" where
  "sampleHeap docsA docsB =
     (\<lambda>a. if a = 1 then sampleField ''timeout'' docsA
          else if a = 2 then sampleField ''timeout'' docsB
          else sampleField ''name'' [])"

section \<open>Properties of ToPascalCase\<close>












section \<open>Properties of the unique resource names\<close>

lemma ReplaceAll_single: "ReplaceAll s [c] [] = filter (\<lambda>x. x \<noteq> c) s"
  by (induction s) auto

lemma set_ReplaceAll_delete_aux: "new = [] \<Longrightarrow> set (ReplaceAll s old new) \<subseteq> set s"
proof (induction s old new rule: ReplaceAll.induct)
  case (1 old new)
  then show ?case by simp
next
  case (2 c cs old new)
  show ?case
  proof (cases "old = []")
    case True
    then show ?thesis using "2.prems" by auto
  next
    case ne: False
    show ?thesis
    proof (cases "prefix old (c # cs)")
      case True
      have "set (drop (length old) (c # cs)) \<subseteq> set (c # cs)"
        by (rule set_drop_subset)
      with "2.IH"(1) [OF ne True "2.prems"] ne True "2.prems" show ?thesis by auto
    next
      case False
      with "2.IH"(2) [OF ne False "2.prems"] ne show ?thesis by auto
    qed
  qed
qed

lemma set_ReplaceAll_delete: "set (ReplaceAll s old []) \<subseteq> set s"
  by (rule set_ReplaceAll_delete_aux) simp

lemma set_stripTokens: "set (stripTokens toks s) \<subseteq> set s"
proof (induction toks arbitrary: s)
  case Nil
  then show ?case by (simp add: stripTokens_def)
next
  case (Cons tok toks)
  have "set (stripTokens toks (ReplaceAll s tok [])) \<subseteq> set (ReplaceAll s tok [])"
    by (rule Cons.IH)
  also have "\<dots> \<subseteq> set s" by (rule set_ReplaceAll_delete)
  finally show ?case by (simp add: stripTokens_def)
qed

lemma stripTokens_removes: "c \<notin> set (stripTokens (xs @ [c] # ys) s)"
proof -
  have "stripTokens (xs @ [c] # ys) s
        = stripTokens ys (ReplaceAll (stripTokens xs s) [c] [])"
    by (simp add: stripTokens_def)
  moreover have "c \<notin> set (ReplaceAll (stripTokens xs s) [c] [])"
    by (simp add: ReplaceAll_single)
  ultimately show ?thesis using set_stripTokens by fastforce
qed

lemma sanitize_no_hyphen: "CHR ''-'' \<notin> set (sanitize s)"
  using stripTokens_removes [of "CHR ''-''" "[]"]
  by (simp add: sanitize_def residueTokens_def)

lemma sanitize_no_dot: "CHR ''.'' \<notin> set (sanitize s)"
  using stripTokens_removes [of "CHR ''.''" "[''-'']"]
  by (simp add: sanitize_def residueTokens_def)

lemma sanitize_no_colon: "CHR '':'' \<notin> set (sanitize s)"
  using stripTokens_removes [of "CHR '':''" "[''-'', ''.'']"]
  by (simp add: sanitize_def residueTokens_def)

lemma sanitize_no_space: "CHR '' '' \<notin> set (sanitize s)"
  using stripTokens_removes [of "CHR '' ''"
      "[''-'', ''.'', '':'', ''!!Start'', ''!!End'', ''ParentSpec'', ''CollectionSpec'']" "[]"]
  by (simp add: sanitize_def residueTokens_def)

lemma generateUniqueResourceName_eq:
  "generateUniqueResourceName object
     = GetKind object @ sanitize (GetNamespace object) @ sanitize (GetName object)"
  by (simp add: generateUniqueResourceName_def sanitize_def stripTokens_def residueTokens_def)

lemmas title_eval =
  Title_def isSeparator_def toUpperChar_def lowerLetters_def upperLetters_def digitChars_def

text \<open>
  Claim C1, as the code has it: the unique name is the kind, unchanged, followed by the
  sanitised namespace and the sanitised name, where sanitising title-capitalises and
  then removes hyphens, dots, colons, the residue tokens and spaces in that order; the
  earlier revision appends only the name, with hyphens, dots and colons removed, to the
  kind. The sanitised text holds no hyphen, dot, colon or space. Two objects of one kind
  and one name receive different names whenever their sanitised namespaces differ, as
  \<open>default\<close> and \<open>other\<close> do.
\<close>

theorem generateUniqueResourceName_shape:
  "generateUniqueResourceName object
     = GetKind object @ sanitize (GetNamespace object) @ sanitize (GetName object)
   \<and> generateUniqueResourceName_v1 object
     = GetKind object @ stripTokens [''-'', ''.'', '':''] (Title (GetName object))
   \<and> set (sanitize s) \<inter> {CHR ''-'', CHR ''.'', CHR '':'', CHR '' ''} = {}
   \<and> (GetKind a = GetKind b \<and> GetName a = GetName b
        \<and> sanitize (GetNamespace a) \<noteq> sanitize (GetNamespace b)
       \<longrightarrow> generateUniqueResourceName a \<noteq> generateUniqueResourceName b)"
proof (intro conjI)
  show "generateUniqueResourceName object
     = GetKind object @ sanitize (GetNamespace object) @ sanitize (GetName object)"
    by (rule generateUniqueResourceName_eq)
  show "generateUniqueResourceName_v1 object
     = GetKind object @ stripTokens [''-'', ''.'', '':''] (Title (GetName object))"
    by (simp add: generateUniqueResourceName_v1_def stripTokens_def)
  show "set (sanitize s) \<inter> {CHR ''-'', CHR ''.'', CHR '':'', CHR '' ''} = {}"
    using sanitize_no_hyphen [of s] sanitize_no_dot [of s] sanitize_no_colon [of s]
      sanitize_no_space [of s] by simp
  show "GetKind a = GetKind b \<and> GetName a = GetName b
        \<and> sanitize (GetNamespace a) \<noteq> sanitize (GetNamespace b)
       \<longrightarrow> generateUniqueResourceName a \<noteq> generateUniqueResourceName b"
    by (simp add: generateUniqueResourceName_eq)
qed

theorem generateUniqueResourceName_shape_witness:
  "sanitize ''default'' \<noteq> sanitize ''other''
   \<and> generateUniqueResourceName
        \<lparr>GetAPIVersion = ''v1'', GetKind = ''ConfigMap'', GetNamespace = ''default'',
         GetName = ''app-config''\<rparr> = ''ConfigMapDefaultAppConfig''
   \<and> generateUniqueResourceName
        \<lparr>GetAPIVersion = ''v1'', GetKind = ''ConfigMap'', GetNamespace = ''other'',
         GetName = ''app-config''\<rparr> = ''ConfigMapOtherAppConfig''
   \<and> generateUniqueResourceName
        \<lparr>GetAPIVersion = ''v1'', GetKind = ''ConfigMap'', GetNamespace = ''default'',
         GetName = ''app-config''\<rparr>
     \<noteq> generateUniqueResourceName
        \<lparr>GetAPIVersion = ''v1'', GetKind = ''ConfigMap'', GetNamespace = ''other'',
         GetName = ''app-config''\<rparr>"
  using generateUniqueResourceName_shape
    [of "\<lparr>GetAPIVersion = ''v1'', GetKind = ''ConfigMap'', GetNamespace = ''default'',
         GetName = ''app-config''\<rparr>" "[]"
        "\<lparr>GetAPIVersion = ''v1'', GetKind = ''ConfigMap'', GetNamespace = ''default'',
         GetName = ''app-config''\<rparr>"
        "\<lparr>GetAPIVersion = ''v1'', GetKind = ''ConfigMap'', GetNamespace = ''other'',
         GetName = ''app-config''\<rparr>"]
  by (simp add: sanitize_def stripTokens_def residueTokens_def generateUniqueResourceName_def
      title_eval)

text \<open>
  The claim as stated fails twice. The namespaces \<open>a-b\<close> and \<open>a--b\<close> differ and
  sanitise to the same text, so the two objects share one unique name; and the kind is
  copied as it is, hyphen included. In the earlier revision the namespace is not read.
\<close>

theorem generateUniqueResourceName_counterexample:
  "generateUniqueResourceName
        \<lparr>GetAPIVersion = ''v1'', GetKind = ''ConfigMap'', GetNamespace = ''a-b'',
         GetName = ''app-config''\<rparr>
     = generateUniqueResourceName
        \<lparr>GetAPIVersion = ''v1'', GetKind = ''ConfigMap'', GetNamespace = ''a--b'',
         GetName = ''app-config''\<rparr>
   \<and> generateUniqueResourceName
        \<lparr>GetAPIVersion = ''v1'', GetKind = ''Config-Map'', GetNamespace = ''default'',
         GetName = ''app-config''\<rparr>
     \<noteq> sanitize ''Config-Map'' @ sanitize ''default'' @ sanitize ''app-config''
   \<and> generateUniqueResourceName_v1
        \<lparr>GetAPIVersion = ''v1'', GetKind = ''ConfigMap'', GetNamespace = ''default'',
         GetName = ''app-config''\<rparr>
     = generateUniqueResourceName_v1
        \<lparr>GetAPIVersion = ''v1'', GetKind = ''ConfigMap'', GetNamespace = ''other'',
         GetName = ''app-config''\<rparr>"
  by (simp add: sanitize_def stripTokens_def residueTokens_def generateUniqueResourceName_def
      generateUniqueResourceName_v1_def title_eval)

section \<open>Properties of the file name deduplication\<close>

lemma dedup_inner_count:
  "orig \<noteq> [] \<Longrightarrow>
   dedup_inner orig fileNames count cur
     = (if count_list fileNames orig = 0 then cur
        else suffixedName orig (count + count_list fileNames orig))"
proof (induction fileNames arbitrary: count cur)
  case Nil
  then show ?case by simp
next
  case (Cons fileName rest)
  show ?case
  proof (cases "orig = fileName")
    case True
    with Cons.prems have ne: "fileName \<noteq> []" by simp
    show ?thesis
      using True ne Cons.IH [OF Cons.prems, of "count + 1"]
      by (simp add: suffixedName_def)
  next
    case False
    then show ?thesis using Cons.IH [OF Cons.prems, of count cur] by auto
  qed
qed

lemma dedup_inner_empty: "dedup_inner [] fileNames count cur = cur"
  by (induction fileNames arbitrary: count cur) auto

lemma dedup_inner_assign:
  "dedup_inner orig fileNames 0 orig
     = (if orig = [] then orig else suffixedName orig (count_list fileNames orig))"
  by (simp add: dedup_inner_empty dedup_inner_count suffixedName_def)

lemma count_list_replicate_other: "x \<noteq> y \<Longrightarrow> count_list (replicate n y) x = 0"
  by (induction n) auto


lemma dedup_fileNames_update:
  "length seen = i \<Longrightarrow>
   (seen @ replicate (Suc n) [] @ [reserved])[i := x]
     = (seen @ [x]) @ replicate n [] @ [reserved]"
  by (simp add: list_update_append)

lemma dedup_fileNames_count:
  "orig \<noteq> [] \<Longrightarrow>
   count_list (seen @ replicate n [] @ [reserved]) orig = count_list (reserved # seen) orig"
  by (simp add: count_list_replicate_other)

lemma dedup_loop_assign:
  "length seen = i \<Longrightarrow>
   map Filename (dedup_loop i rest (seen @ replicate (length rest) [] @ [reserved]))
     = assignNames (reserved # seen) (map Filename rest)"
proof (induction rest arbitrary: i seen)
  case Nil
  then show ?case by simp
next
  case (Cons sourceFile rest)
  have len: "length (seen @ [Filename sourceFile]) = Suc i" using Cons.prems by simp
  have step: "(seen @ replicate (length (sourceFile # rest)) [] @ [reserved])[i := Filename sourceFile]
      = (seen @ [Filename sourceFile]) @ replicate (length rest) [] @ [reserved]"
    using dedup_fileNames_update [OF Cons.prems] by simp
  have hd_eq: "dedup_inner (Filename sourceFile)
        (seen @ replicate (length (sourceFile # rest)) [] @ [reserved]) 0 (Filename sourceFile)
      = (if Filename sourceFile = [] then Filename sourceFile
         else suffixedName (Filename sourceFile) (count_list (reserved # seen) (Filename sourceFile)))"
    using dedup_fileNames_count [of "Filename sourceFile" seen "length (sourceFile # rest)" reserved]
    by (simp only: dedup_inner_assign split: if_splits) auto
  show ?case
    using Cons.IH [OF len] step hd_eq by simp
qed

lemma deduplicateFileNames_assign:
  "map Filename (deduplicateFileNames sourceFiles)
     = assignNames [''resources.go''] (map Filename sourceFiles)"
proof -
  have "replicate (length sourceFiles + 1) ([] :: string)
      = replicate (length sourceFiles) [] @ [[]]"
    by (simp add: replicate_append_same)
  then have "(replicate (length sourceFiles + 1) [])[length sourceFiles := ''resources.go'']
      = [] @ replicate (length sourceFiles) [] @ [''resources.go'']"
    using list_update_length [of "replicate (length sourceFiles) ([] :: string)" "[]" "[]"
        "''resources.go''"]
    by simp
  then show ?thesis
    using dedup_loop_assign [of "[]" 0 sourceFiles "''resources.go''"]
    by (simp add: deduplicateFileNames_def)
qed

lemma assignNames_same:
  "base \<noteq> [] \<Longrightarrow> count_list seen base = k \<Longrightarrow>
   assignNames seen (replicate m base) = map (suffixedName base) [k..<k + m]"
proof (induction m arbitrary: seen k)
  case 0
  then show ?case by simp
next
  case (Suc m)
  have "count_list (seen @ [base]) base = Suc k"
    using Suc.prems(2) by simp
  from Suc.IH [OF Suc.prems(1) this]
  have rest: "assignNames (seen @ [base]) (replicate m base)
      = map (suffixedName base) [Suc k..<Suc k + m]" .
  have "[k..<k + Suc m] = k # [Suc k..<Suc k + m]"
    by (simp add: upt_conv_Cons del: upt_Suc)
  then show ?case using rest Suc.prems by (simp del: upt_Suc)
qed


lemma showNat_nonempty: "showNat n \<noteq> []"
  by (subst showNat.simps) simp

lemma digitChars_inj: "i < 10 \<Longrightarrow> j < 10 \<Longrightarrow> digitChars ! i = digitChars ! j \<Longrightarrow> i = j"
proof -
  assume a: "i < 10" "j < 10" "digitChars ! i = digitChars ! j"
  have "distinct digitChars" by (simp add: digitChars_def)
  moreover have "i < length digitChars" "j < length digitChars"
    using a by (simp_all add: digitChars_def)
  ultimately show "i = j" using a(3) by (simp add: nth_eq_iff_index_eq)
qed

lemma showNat_inj: "showNat n = showNat m \<Longrightarrow> n = m"
proof (induction n arbitrary: m rule: showNat.induct)
  case (1 n)
  show ?case
  proof (cases "n < 10")
    case small: True
    show ?thesis
    proof (cases "m < 10")
      case True
      with small "1.prems" have "digitChars ! n = digitChars ! m"
        by (simp add: showNat.simps [of n] showNat.simps [of m])
      then show ?thesis using small True by (rule digitChars_inj [rotated 2])
    next
      case False
      then have "length (showNat m) \<ge> 2"
        using showNat_nonempty [of "m div 10"]
        by (cases "showNat (m div 10)") (simp_all add: showNat.simps [of m])
      moreover have "length (showNat n) = 1" using small by (simp add: showNat.simps [of n])
      ultimately show ?thesis using "1.prems" by simp
    qed
  next
    case big: False
    show ?thesis
    proof (cases "m < 10")
      case True
      have "length (showNat n) \<ge> 2"
        using showNat_nonempty [of "n div 10"] big
        by (cases "showNat (n div 10)") (simp_all add: showNat.simps [of n])
      moreover have "length (showNat m) = 1" using True by (simp add: showNat.simps [of m])
      ultimately show ?thesis using "1.prems" by simp
    next
      case False
      with big "1.prems" have eq: "showNat (n div 10) = showNat (m div 10)"
        and d: "digitChars ! (n mod 10) = digitChars ! (m mod 10)"
        by (simp_all add: showNat.simps [of n] showNat.simps [of m])
      from "1.IH" [OF big eq] have "n div 10 = m div 10" .
      moreover have "n mod 10 = m mod 10"
        using d by (intro digitChars_inj) simp_all
      ultimately show ?thesis by (metis div_mult_mod_eq)
    qed
  qed
qed

lemma Split_from_hd:
  "sep \<noteq> [] \<Longrightarrow>
   \<exists>p. hd (Split_from cur s sep) = cur @ p \<and> (s = p \<or> (\<exists>r. s = p @ sep @ r))"
proof (induction cur s sep rule: Split_from.induct)
  case (1 cur sep)
  then show ?case by simp
next
  case (2 cur c cs sep)
  show ?case
  proof (cases "prefix sep (c # cs)")
    case True
    then obtain r where r: "c # cs = sep @ r" by (auto simp: prefix_def)
    have "hd (Split_from cur (c # cs) sep) = cur @ []"
      using True "2.prems" by simp
    moreover have "c # cs = [] @ sep @ r" using r by simp
    ultimately show ?thesis by blast
  next
    case False
    with "2.IH"(2) "2.prems" obtain p where
      p: "hd (Split_from (cur @ [c]) cs sep) = (cur @ [c]) @ p"
         "cs = p \<or> (\<exists>r. cs = p @ sep @ r)"
      by auto
    have "hd (Split_from cur (c # cs) sep) = cur @ (c # p)" using False p(1) by simp
    moreover have "c # cs = c # p \<or> (\<exists>r. c # cs = (c # p) @ sep @ r)" using p(2) by auto
    ultimately show ?thesis by blast
  qed
qed


lemma stem_suffix_differs: "base \<noteq> hd (Split base ''.go'') @ ''_'' @ x"
proof -
  obtain p where p: "hd (Split base ''.go'') = p" "base = p \<or> (\<exists>r. base = p @ ''.go'' @ r)"
    using Split_from_hd [of "''.go''" "[]" base] by (auto simp: Split_def)
  show ?thesis
  proof
    assume eq: "base = hd (Split base ''.go'') @ ''_'' @ x"
    from p(2) show False
    proof
      assume "base = p"
      with eq p(1) show False by simp
    next
      assume "\<exists>r. base = p @ ''.go'' @ r"
      then obtain r where "base = p @ ''.go'' @ r" ..
      with eq p(1) show False by simp
    qed
  qed
qed

lemma suffixedName_inj: "suffixedName base j = suffixedName base k \<Longrightarrow> j = k"
proof (cases "j = 0"; cases "k = 0")
  assume "j = 0" "k = 0"
  then show ?thesis by simp
next
  assume a: "suffixedName base j = suffixedName base k" "j = 0" "k \<noteq> 0"
  then show ?thesis using stem_suffix_differs [of base "showNat k @ ''.go''"]
    by (simp add: suffixedName_def)
next
  assume a: "suffixedName base j = suffixedName base k" "j \<noteq> 0" "k = 0"
  then show ?thesis using stem_suffix_differs [of base "showNat j @ ''.go''"]
    by (simp add: suffixedName_def)
next
  assume a: "suffixedName base j = suffixedName base k" "j \<noteq> 0" "k \<noteq> 0"
  then have "showNat j = showNat k" by (simp add: suffixedName_def)
  then show ?thesis by (rule showNat_inj)
qed

lemma distinct_suffixedNames: "distinct (map (suffixedName base) [k..<k + m])"
  by (simp add: distinct_map inj_on_def) (blast dest: suffixedName_inj)

text \<open>
  Claim C2, as the code has it: every candidate is compared with the reserved name
  \<open>resources.go\<close> and with the candidates of the files before it, and an empty candidate
  is left alone. When all \<open>N\<close> candidates are the same non-empty name, the deduplication
  yields \<open>N\<close> distinct names: the candidate itself followed by the suffixed names numbered
  from 1 on when the candidate is not the reserved name, and the suffixed names numbered
  from 1 to \<open>N\<close> when it is.
\<close>

theorem deduplicateFileNames_same_base:
  "map Filename (deduplicateFileNames sourceFiles)
     = assignNames [''resources.go''] (map Filename sourceFiles)
   \<and> ((\<forall>sf \<in> set sourceFiles. Filename sf = base) \<and> base \<noteq> [] \<longrightarrow>
        map Filename (deduplicateFileNames sourceFiles)
          = map (suffixedName base)
              [(if base = ''resources.go'' then 1 else 0)..<
               (if base = ''resources.go'' then 1 else 0) + length sourceFiles]
        \<and> distinct (map Filename (deduplicateFileNames sourceFiles))
        \<and> length (deduplicateFileNames sourceFiles) = length sourceFiles)"
proof (intro conjI impI)
  show "map Filename (deduplicateFileNames sourceFiles)
     = assignNames [''resources.go''] (map Filename sourceFiles)"
    by (rule deduplicateFileNames_assign)
next
  assume "(\<forall>sf \<in> set sourceFiles. Filename sf = base) \<and> base \<noteq> []"
  then have same: "\<forall>sf \<in> set sourceFiles. Filename sf = base" and ne: "base \<noteq> []"
    by simp_all
  let ?r = "if base = ''resources.go'' then 1 else 0 :: nat"
  have names: "map Filename sourceFiles = replicate (length sourceFiles) base"
    using same by (simp add: map_replicate_const [symmetric] cong: map_cong)
  have cnt: "count_list [''resources.go''] base = ?r" by simp
  have eq: "map Filename (deduplicateFileNames sourceFiles)
      = map (suffixedName base) [?r..<?r + length sourceFiles]"
    using assignNames_same [OF ne cnt, of "length sourceFiles"] names
    by (simp only: deduplicateFileNames_assign)
  then show "map Filename (deduplicateFileNames sourceFiles)
      = map (suffixedName base)
          [(if base = ''resources.go'' then 1 else 0)..<
           (if base = ''resources.go'' then 1 else 0) + length sourceFiles]" .
  show "distinct (map Filename (deduplicateFileNames sourceFiles))"
    unfolding eq by (rule distinct_suffixedNames)
  show "length (deduplicateFileNames sourceFiles) = length sourceFiles"
    using arg_cong [OF eq, of length] by simp
qed

theorem deduplicateFileNames_same_base_witness:
  "map Filename (deduplicateFileNames
      [\<lparr>Filename = ''configmap.go'', Children = []\<rparr>,
       \<lparr>Filename = ''configmap.go'', Children = []\<rparr>,
       \<lparr>Filename = ''configmap.go'', Children = []\<rparr>])
     = [''configmap.go'', ''configmap_1.go'', ''configmap_2.go'']
   \<and> distinct (map Filename (deduplicateFileNames
      [\<lparr>Filename = ''configmap.go'', Children = []\<rparr>,
       \<lparr>Filename = ''configmap.go'', Children = []\<rparr>,
       \<lparr>Filename = ''configmap.go'', Children = []\<rparr>]))"
  using deduplicateFileNames_same_base
    [of "[\<lparr>Filename = ''configmap.go'', Children = []\<rparr>,
          \<lparr>Filename = ''configmap.go'', Children = []\<rparr>,
          \<lparr>Filename = ''configmap.go'', Children = []\<rparr>]" "''configmap.go''"]
  by (simp add: suffixedName_def Split_def showNat.simps digitChars_def upt_rec)

text \<open>
  The claim as stated fails where the shared candidate is the reserved name, whose first
  file is suffixed too, and where it is the empty name, which the inner loop skips.
\<close>

theorem deduplicateFileNames_reserved_counterexample:
  "map Filename (deduplicateFileNames
      [\<lparr>Filename = ''resources.go'', Children = []\<rparr>,
       \<lparr>Filename = ''resources.go'', Children = []\<rparr>])
     = [''resources_1.go'', ''resources_2.go'']
   \<and> map Filename (deduplicateFileNames
      [\<lparr>Filename = [], Children = []\<rparr>, \<lparr>Filename = [], Children = []\<rparr>])
     = [[], []]"
  by (simp add: deduplicateFileNames_def Split_def showNat.simps digitChars_def)

text \<open>
  Claim C3 on the code: two files named \<open>a.go\<close> followed by one natively named
  \<open>a_1.go\<close>. The second file is renamed to \<open>a_1.go\<close>; the list of seen names holds
  the candidates, not the names handed out, so the third file finds no collision and
  keeps \<open>a_1.go\<close>. Two entries share a file name after the deduplication.
\<close>

theorem deduplicateFileNames_native_suffix_collision:
  "map Filename (deduplicateFileNames
      [\<lparr>Filename = ''a.go'', Children = []\<rparr>,
       \<lparr>Filename = ''a.go'', Children = []\<rparr>,
       \<lparr>Filename = ''a_1.go'', Children = []\<rparr>])
     = [''a.go'', ''a_1.go'', ''a_1.go'']
   \<and> \<not> distinct (map Filename (deduplicateFileNames
      [\<lparr>Filename = ''a.go'', Children = []\<rparr>,
       \<lparr>Filename = ''a.go'', Children = []\<rparr>,
       \<lparr>Filename = ''a_1.go'', Children = []\<rparr>]))"
  by (simp add: deduplicateFileNames_def Split_def showNat.simps digitChars_def)

section \<open>Properties of the manifest processing\<close>

lemma addMarkerField_frame:
  "addMarkerField env ws r = (e, ws') \<Longrightarrow>
   Resources ws' = Resources ws \<and> collection ws' = collection ws
   \<and> collectionResources ws' = collectionResources ws"
  by (auto simp: addMarkerField_def Let_def split: prod.splits)

lemma processMarkerResults_frame:
  "processMarkerResults env ws rs = (e, ws') \<Longrightarrow>
   Resources ws' = Resources ws \<and> collection ws' = collection ws
   \<and> collectionResources ws' = collectionResources ws"
proof (induction rs arbitrary: ws)
  case Nil
  then show ?case by simp
next
  case (Cons markerResult rest)
  show ?case
  proof (cases "Object markerResult")
    case (FieldMarker r)
    show ?thesis
    proof (cases "collection ws \<and> \<not> collectionResources ws")
      case True
      with Cons FieldMarker show ?thesis by simp
    next
      case False
      obtain e1 ws1 where step: "addMarkerField env ws r = (e1, ws1)" by fastforce
      note fr = addMarkerField_frame [OF step]
      show ?thesis
      proof (cases e1)
        case None
        with Cons.prems FieldMarker False step
        have "processMarkerResults env ws1 rest = (e, ws')" by simp
        from Cons.IH [OF this] fr show ?thesis by simp
      next
        case (Some err)
        with Cons.prems FieldMarker False step have "ws' = ws1" by simp
        with fr show ?thesis by simp
      qed
    qed
  next
    case (CollectionFieldMarker r)
    show ?thesis
    proof (cases "collection ws")
      case False
      with Cons CollectionFieldMarker show ?thesis by simp
    next
      case True
      obtain e1 ws1 where step: "addMarkerField env ws r = (e1, ws1)" by fastforce
      note fr = addMarkerField_frame [OF step]
      show ?thesis
      proof (cases e1)
        case None
        with Cons.prems CollectionFieldMarker True step
        have "processMarkerResults env ws1 rest = (e, ws')" by simp
        from Cons.IH [OF this] fr show ?thesis by simp
      next
        case (Some err)
        with Cons.prems CollectionFieldMarker True step have "ws' = ws1" by simp
        with fr show ?thesis by simp
      qed
    qed
  next
    case OtherObject
    with Cons show ?thesis by simp
  qed
qed

lemma processMarkers_content_frame:
  "processMarkers_content env ws file = (res, ws') \<Longrightarrow>
   Resources ws' = Resources ws \<and> collection ws' = collection ws
   \<and> collectionResources ws' = collectionResources ws"
  unfolding processMarkers_content_def
  by (auto split: sum.splits prod.splits option.splits dest: processMarkerResults_frame)

lemma processMarkers_frame:
  "processMarkers env ws file = (res, ws') \<Longrightarrow>
   Resources ws' = Resources ws \<and> collection ws' = collection ws
   \<and> collectionResources ws' = collectionResources ws"
  unfolding processMarkers_def
  by (auto simp: Let_def split: sum.splits prod.splits dest: processMarkers_content_frame)

lemma processManifestObjects_frame:
  "processManifestObjects env ws file manifests children = (res, ws') \<Longrightarrow>
   Resources ws' = Resources ws \<and> collection ws' = collection ws
   \<and> collectionResources ws' = collectionResources ws"
proof (induction manifests arbitrary: ws children)
  case Nil
  then show ?case by simp
next
  case (Cons manifest rest)
  show ?case
  proof (cases "DecodeInto env manifest")
    case (Inl err)
    with Cons.prems show ?thesis by simp
  next
    case (Inr manifestObject)
    show ?thesis
    proof (cases "Generate env manifest ''resourceObj''")
      case (Inl err)
      with Cons.prems Inr show ?thesis by (auto simp: Let_def split: prod.splits)
    next
      case gen: (Inr resourceDefinition)
      with Cons.prems Inr obtain ws1 children1 where
        rec: "processManifestObjects env ws1 file rest children1 = (res, ws')"
        and fr: "Resources ws1 = Resources ws" "collection ws1 = collection ws"
                "collectionResources ws1 = collectionResources ws"
        by (auto simp: Let_def split: prod.splits)
      from Cons.IH [OF rec] fr show ?thesis by simp
    qed
  qed
qed

lemma processManifestFile_frame:
  "processManifestFile env path ws file = (e, ws') \<Longrightarrow>
   Resources ws' = Resources ws \<and> collection ws' = collection ws
   \<and> collectionResources ws' = collectionResources ws"
  unfolding processManifestFile_def
  by (auto simp: Let_def split: sum.splits prod.splits
      dest!: processMarkers_frame processManifestObjects_frame)

lemma processManifests_loop_frame:
  "processManifests_loop env path ws files = (e, ws') \<Longrightarrow>
   Resources ws' = Resources ws \<and> collection ws' = collection ws
   \<and> collectionResources ws' = collectionResources ws"
proof (induction files arbitrary: ws)
  case Nil
  then show ?case by simp
next
  case (Cons mf rest)
  obtain e1 ws1 where step: "processManifestFile env path ws mf = (e1, ws1)" by fastforce
  note fr = processManifestFile_frame [OF step]
  show ?case
  proof (cases e1)
    case None
    with Cons.prems step have "processManifests_loop env path ws1 rest = (e, ws')" by simp
    from Cons.IH [OF this] fr show ?thesis by simp
  next
    case (Some err)
    with Cons.prems step have "ws' = ws1" by simp
    with fr show ?thesis by simp
  qed
qed

lemma processManifests_start:
  "processManifests env ws path coll collResources =
     (case processManifests_loop env path (start env ws coll collResources) (Resources ws) of
        (Some err, ws') \<Rightarrow> (Some err, ws')
      | (None, ws') \<Rightarrow> (None, ws'\<lparr>SourceFiles := deduplicateFileNames (SourceFiles ws')\<rparr>))"
  by (simp add: processManifests_def start_def init_def Let_def)

lemma start_Resources: "Resources ws2 = Resources ws1 \<Longrightarrow>
   start env ws2 coll collResources = start env ws1 coll collResources"
  by (cases ws1; cases ws2) (simp add: start_def init_def)

lemma processManifests_Resources:
  "Resources (snd (processManifests env ws path coll collResources)) = Resources ws"
proof -
  obtain e ws' where loop:
    "processManifests_loop env path (start env ws coll collResources) (Resources ws) = (e, ws')"
    by fastforce
  from processManifests_loop_frame [OF loop] have "Resources ws' = Resources ws"
    by (simp add: start_def init_def)
  then show ?thesis using loop by (cases e) (simp_all add: processManifests_start)
qed

lemma processMarkers_content_error:
  "processMarkers_content env ws mf = (Inl e, ws') \<Longrightarrow> \<exists>cause. e = formatProcessError mf cause"
  unfolding processMarkers_content_def
  by (auto split: sum.splits prod.splits option.splits)

lemma processMarkers_error:
  "processMarkers env ws mf = (Inl e, ws') \<Longrightarrow> \<exists>cause. e = formatProcessError mf cause"
  unfolding processMarkers_def
  by (auto simp: Let_def split: sum.splits prod.splits dest: processMarkers_content_error)

lemma processManifestObjects_error:
  "processManifestObjects env ws mf manifests children = (Inl e, ws') \<Longrightarrow>
   \<exists>cause. e = formatProcessError mf cause"
proof (induction manifests arbitrary: ws children)
  case Nil
  then show ?case by simp
next
  case (Cons manifest rest)
  show ?case
  proof (cases "DecodeInto env manifest")
    case (Inl err)
    with Cons.prems show ?thesis by auto
  next
    case (Inr manifestObject)
    show ?thesis
    proof (cases "Generate env manifest ''resourceObj''")
      case (Inl err)
      with Cons.prems Inr show ?thesis by (auto simp: Let_def split: prod.splits)
    next
      case gen: (Inr resourceDefinition)
      with Cons.prems Inr obtain ws1 children1 where
        "processManifestObjects env ws1 mf rest children1 = (Inl e, ws')"
        by (auto simp: Let_def split: prod.splits)
      then show ?thesis by (rule Cons.IH)
    qed
  qed
qed

lemma processManifestFile_error:
  "processManifestFile env path ws mf = (Some e, ws') \<Longrightarrow>
   \<exists>cause. e = formatProcessError (JoinDir env path mf) cause \<or> e = formatProcessError mf cause"
  unfolding processManifestFile_def
  by (auto simp: Let_def split: sum.splits prod.splits
      dest: processMarkers_error processManifestObjects_error)

lemma processManifests_loop_append:
  "processManifests_loop env path ws pre = (None, ws1) \<Longrightarrow>
   processManifests_loop env path ws (pre @ rest) = processManifests_loop env path ws1 rest"
proof (induction pre arbitrary: ws)
  case Nil
  then show ?case by simp
next
  case (Cons mf pre)
  obtain e1 w1 where step: "processManifestFile env path ws mf = (e1, w1)" by fastforce
  show ?case
  proof (cases e1)
    case None
    with Cons.prems step have "processManifests_loop env path w1 pre = (None, ws1)" by simp
    from Cons.IH [OF this] step None show ?thesis by simp
  next
    case (Some err)
    with Cons.prems step show ?thesis by simp
  qed
qed

lemma processManifests_loop_error:
  "processManifests_loop env path ws files = (Some e, ws') \<Longrightarrow>
   \<exists>pre mf post ws1. files = pre @ mf # post
      \<and> processManifests_loop env path ws pre = (None, ws1)
      \<and> processManifestFile env path ws1 mf = (Some e, ws')"
proof (induction files arbitrary: ws)
  case Nil
  then show ?case by simp
next
  case (Cons m rest)
  obtain e1 w1 where step: "processManifestFile env path ws m = (e1, w1)" by fastforce
  show ?case
  proof (cases e1)
    case (Some err)
    with Cons.prems step have "processManifestFile env path ws m = (Some e, ws')" by simp
    moreover have "processManifests_loop env path ws [] = (None, ws)" by simp
    moreover have "m # rest = [] @ m # rest" by simp
    ultimately show ?thesis by blast
  next
    case None
    with Cons.prems step have "processManifests_loop env path w1 rest = (Some e, ws')" by simp
    from Cons.IH [OF this] obtain pre mf post ws1 where
      d: "rest = pre @ mf # post" "processManifests_loop env path w1 pre = (None, ws1)"
         "processManifestFile env path ws1 mf = (Some e, ws')"
      by blast
    have "m # rest = (m # pre) @ mf # post" using d(1) by simp
    moreover have "processManifests_loop env path ws (m # pre) = (None, ws1)"
      using step None d(2) by simp
    ultimately show ?thesis using d(3) by blast
  qed
qed

lemma skip_collection_markers:
  "\<not> collection ws \<Longrightarrow>
   processMarkerResults env ws rs
     = processMarkerResults env ws (filter (\<lambda>m. \<not> isCollectionFieldMarker (Object m)) rs)"
proof (induction rs arbitrary: ws)
  case Nil
  then show ?case by simp
next
  case (Cons markerResult rest)
  show ?case
  proof (cases "Object markerResult")
    case (FieldMarker r)
    obtain e1 ws1 where step: "addMarkerField env ws r = (e1, ws1)" by fastforce
    from addMarkerField_frame [OF step] Cons.prems have "\<not> collection ws1" by simp
    from Cons.IH [OF this] step FieldMarker Cons.prems show ?thesis
      by (cases e1) (simp_all add: isCollectionFieldMarker_def)
  next
    case (CollectionFieldMarker r)
    with Cons.IH [OF Cons.prems] Cons.prems show ?thesis
      by (simp add: isCollectionFieldMarker_def)
  next
    case OtherObject
    with Cons.IH [OF Cons.prems] show ?thesis
      by (simp add: isCollectionFieldMarker_def)
  qed
qed

lemma skip_field_markers:
  "collection ws \<Longrightarrow> \<not> collectionResources ws \<Longrightarrow>
   processMarkerResults env ws rs
     = processMarkerResults env ws (filter (\<lambda>m. \<not> isFieldMarker (Object m)) rs)"
proof (induction rs arbitrary: ws)
  case Nil
  then show ?case by simp
next
  case (Cons markerResult rest)
  show ?case
  proof (cases "Object markerResult")
    case (FieldMarker r)
    with Cons.IH [OF Cons.prems] Cons.prems show ?thesis
      by (simp add: isFieldMarker_def)
  next
    case (CollectionFieldMarker r)
    obtain e1 ws1 where step: "addMarkerField env ws r = (e1, ws1)" by fastforce
    from addMarkerField_frame [OF step] Cons.prems
    have "collection ws1" "\<not> collectionResources ws1" by simp_all
    from Cons.IH [OF this] step CollectionFieldMarker Cons.prems show ?thesis
      by (cases e1) (simp_all add: isFieldMarker_def)
  next
    case OtherObject
    with Cons.IH [OF Cons.prems] show ?thesis
      by (simp add: isFieldMarker_def)
  qed
qed

lemma marshalNodes_fail:
  "(\<forall>n \<in> set ns. \<exists>m. Marshal env n = Inr m) \<Longrightarrow> Marshal env node = Inl err \<Longrightarrow>
   marshalNodes env (ns @ node # ns') buf = Inl err"
proof (induction ns arbitrary: buf)
  case Nil
  then show ?case by simp
next
  case (Cons n ns)
  from Cons.prems(1) obtain m where m: "Marshal env n = Inr m" by auto
  have "\<forall>n \<in> set ns. \<exists>m. Marshal env n = Inr m" using Cons.prems(1) by simp
  from Cons.IH [OF this Cons.prems(2)] m show ?case by simp
qed

lemma marshalNodes_ok:
  "(\<forall>n \<in> set nodes. \<exists>m. Marshal env n = Inr m) \<Longrightarrow> \<exists>out. marshalNodes env nodes buf = Inr out"
proof (induction nodes arbitrary: buf)
  case Nil
  then show ?case by simp
next
  case (Cons n ns)
  from Cons.prems obtain m where m: "Marshal env n = Inr m" by auto
  have "\<forall>n \<in> set ns. \<exists>m. Marshal env n = Inr m" using Cons.prems by simp
  from Cons.IH [OF this] m show ?case by simp
qed

lemma processMarkerResults_skip:
  "markerInScope ws (Object markerResult) = None \<Longrightarrow>
   processMarkerResults env ws (markerResult # rest) = processMarkerResults env ws rest"
  by (cases "Object markerResult") (auto simp: markerInScope_def split: if_splits)

lemma processMarkerResults_add:
  "markerInScope ws (Object markerResult) = Some r \<Longrightarrow>
   processMarkerResults env ws (markerResult # rest)
     = (case addMarkerField env ws r of
          (Some err, ws') \<Rightarrow> (Some err, ws')
        | (None, ws') \<Rightarrow> processMarkerResults env ws' rest)"
  by (cases "Object markerResult") (auto simp: markerInScope_def split: if_splits)

lemma processMarkerResults_append:
  "processMarkerResults env ws rs0 = (None, ws0) \<Longrightarrow>
   processMarkerResults env ws (rs0 @ rs1) = processMarkerResults env ws0 rs1"
proof (induction rs0 arbitrary: ws)
  case Nil
  then show ?case by simp
next
  case (Cons markerResult rest)
  show ?case
  proof (cases "markerInScope ws (Object markerResult)")
    case None
    with Cons.prems have "processMarkerResults env ws rest = (None, ws0)"
      by (simp add: processMarkerResults_skip del: processMarkerResults.simps)
    from Cons.IH [OF this] None show ?thesis
      by (simp add: processMarkerResults_skip del: processMarkerResults.simps)
  next
    case (Some r)
    obtain e1 ws1 where step: "addMarkerField env ws r = (e1, ws1)" by fastforce
    show ?thesis
    proof (cases e1)
      case None
      with Cons.prems Some step have "processMarkerResults env ws1 rest = (None, ws0)"
        by (simp add: processMarkerResults_add del: processMarkerResults.simps)
      from Cons.IH [OF this] Some step None show ?thesis
        by (simp add: processMarkerResults_add del: processMarkerResults.simps)
    next
      case (Some err)
      with Cons.prems \<open>markerInScope ws (Object markerResult) = Some r\<close> step show ?thesis
        by (simp add: processMarkerResults_add del: processMarkerResults.simps)
    qed
  qed
qed

lemma markerInScope_frame:
  "collection ws' = collection ws \<Longrightarrow> collectionResources ws' = collectionResources ws \<Longrightarrow>
   markerInScope ws' obj = markerInScope ws obj"
  by (cases obj) (simp_all add: markerInScope_def)

lemma addMarkerField_eq:
  "addMarkerField env ws r
     = (fst (AddField env (APISpecFields ws) (Name r) (Type r) (markerComments r)
               (snd (markerSample r)) (fst (markerSample r))),
        ws\<lparr>APISpecFields :=
              snd (AddField env (APISpecFields ws) (Name r) (Type r) (markerComments r)
                     (snd (markerSample r)) (fst (markerSample r)))\<rparr>)"
  by (simp add: addMarkerField_def Let_def case_prod_beta)

lemma processMarkerResults_addField_fail:
  assumes pre: "processMarkerResults env ws rs0 = (None, ws0)"
    and scope: "markerInScope ws (Object markerResult) = Some r"
    and fail: "AddField env (APISpecFields ws0) (Name r) (Type r) (markerComments r)
                 (snd (markerSample r)) (fst (markerSample r)) = (Some err, f)"
  shows "processMarkerResults env ws (rs0 @ markerResult # rs1)
           = (Some err, ws0\<lparr>APISpecFields := f\<rparr>)"
proof -
  from processMarkerResults_frame [OF pre]
  have "markerInScope ws0 (Object markerResult) = Some r"
    using scope markerInScope_frame [of ws0 ws "Object markerResult"] by simp
  moreover have "addMarkerField env ws0 r = (Some err, ws0\<lparr>APISpecFields := f\<rparr>)"
    using fail by (simp add: addMarkerField_eq)
  ultimately have "processMarkerResults env ws0 (markerResult # rs1)
      = (Some err, ws0\<lparr>APISpecFields := f\<rparr>)"
    by (simp add: processMarkerResults_add del: processMarkerResults.simps)
  then show ?thesis using processMarkerResults_append [OF pre] by simp
qed

lemma processManifestObjects_append:
  "processManifestObjects env w mf ms acc = (Inr children, w2) \<Longrightarrow>
   processManifestObjects env w mf (ms @ rest) acc = processManifestObjects env w2 mf rest children"
proof (induction ms arbitrary: w acc)
  case Nil
  then show ?case by simp
next
  case (Cons manifest ms)
  show ?case
  proof (cases "DecodeInto env manifest")
    case (Inl err)
    with Cons.prems show ?thesis by simp
  next
    case (Inr manifestObject)
    show ?thesis
    proof (cases "Generate env manifest ''resourceObj''")
      case (Inl err)
      with Cons.prems Inr show ?thesis by (auto simp: Let_def split: prod.splits)
    next
      case gen: (Inr resourceDefinition)
      with Cons.prems Inr obtain w1 acc1 where
        step: "\<And>xs. processManifestObjects env w mf (manifest # xs) acc
                 = processManifestObjects env w1 mf xs acc1"
        and rec: "processManifestObjects env w1 mf ms acc1 = (Inr children, w2)"
        by (auto simp: Let_def split: prod.splits)
      from Cons.IH [OF rec] step show ?thesis by simp
    qed
  qed
qed


lemma processMarkers_content_read_fail:
  "ReadFile env mfile = Inl err \<Longrightarrow>
   processMarkers_content env w mfile = (Inl (formatProcessError mfile err), w)"
  by (simp add: processMarkers_content_def)

lemma processMarkers_content_init_fail:
  "ReadFile env mfile = Inr content \<Longrightarrow> InitializeMarkerInspector env = Inl err \<Longrightarrow>
   processMarkers_content env w mfile = (Inl (formatProcessError mfile err), w)"
  by (simp add: processMarkers_content_def)

lemma processMarkers_content_inspect_fail:
  "ReadFile env mfile = Inr content \<Longrightarrow> InitializeMarkerInspector env = Inr insp \<Longrightarrow>
   InspectYAML env insp content = Inl err \<Longrightarrow>
   processMarkers_content env w mfile = (Inl (formatProcessError mfile err), w)"
  by (simp add: processMarkers_content_def)

lemma processMarkers_content_marshal_fail:
  "ReadFile env mfile = Inr content \<Longrightarrow> InitializeMarkerInspector env = Inr insp \<Longrightarrow>
   InspectYAML env insp content = Inr (ns @ node # ns', rs) \<Longrightarrow>
   (\<forall>n \<in> set ns. \<exists>m. Marshal env n = Inr m) \<Longrightarrow> Marshal env node = Inl err \<Longrightarrow>
   processMarkers_content env w mfile = (Inl (formatProcessError mfile err), w)"
  using marshalNodes_fail [of ns env node err ns' "[]"]
  by (simp add: processMarkers_content_def)

lemma processMarkers_content_addField_fail:
  assumes "ReadFile env mfile = Inr content" and "InitializeMarkerInspector env = Inr insp"
    and "InspectYAML env insp content = Inr (nodes, rs0 @ markerResult # rs1)"
    and "\<forall>n \<in> set nodes. \<exists>m. Marshal env n = Inr m"
    and "processMarkerResults env w rs0 = (None, w0)"
    and "markerInScope w (Object markerResult) = Some r"
    and "AddField env (APISpecFields w0) (Name r) (Type r) (markerComments r)
           (snd (markerSample r)) (fst (markerSample r)) = (Some err, f)"
  shows "processMarkers_content env w mfile
           = (Inl (formatProcessError mfile err), w0\<lparr>APISpecFields := f\<rparr>)"
proof -
  from marshalNodes_ok [OF assms(4)] obtain out where "marshalNodes env nodes [] = Inr out"
    by blast
  moreover note processMarkerResults_addField_fail [OF assms(5) assms(6) assms(7), of rs1]
  ultimately show ?thesis using assms(1-3) by (simp add: processMarkers_content_def)
qed

lemma processManifestFile_markers_fail:
  "processMarkers_content env w (JoinDir env path mf) = (Inl e, w') \<Longrightarrow>
   processManifestFile env path w mf = (Some e, w')"
  by (simp add: processManifestFile_def processMarkers_def)

lemma processManifestFile_decode_fail:
  assumes "processMarkers env w (JoinDir env path mf) = (Inr (ms @ manifest # ms'), w1)"
    and "processManifestObjects env w1 mf ms [] = (Inr children, w2)"
    and "DecodeInto env manifest = Inl err"
  shows "processManifestFile env path w mf = (Some (formatProcessError mf err), w2)"
proof -
  have "processManifestObjects env w1 mf (ms @ manifest # ms') []
      = (Inl (formatProcessError mf err), w2)"
    using processManifestObjects_append [OF assms(2), of "manifest # ms'"] assms(3) by simp
  then show ?thesis using assms(1) by (simp add: processManifestFile_def)
qed

lemma processManifestFile_generate_fail:
  assumes "processMarkers env w (JoinDir env path mf) = (Inr (ms @ manifest # ms'), w1)"
    and "processManifestObjects env w1 mf ms [] = (Inr children, w2)"
    and "DecodeInto env manifest = Inr manifestObject"
    and "Generate env manifest ''resourceObj'' = Inl err"
  shows "fst (processManifestFile env path w mf) = Some (formatProcessError mf err)"
proof -
  have "fst (processManifestObjects env w1 mf (ms @ manifest # ms') [])
      = Inl (formatProcessError mf err)"
    using processManifestObjects_append [OF assms(2), of "manifest # ms'"] assms(3,4)
    by (simp add: Let_def split: prod.splits)
  then show ?thesis using assms(1)
    by (cases "processManifestObjects env w1 mf (ms @ manifest # ms') []")
       (simp add: processManifestFile_def)
qed

lemma processManifests_first_failure:
  assumes "Resources ws = pre @ mf # post"
    and "processManifests_loop env path (start env ws coll collResources) pre = (None, w)"
    and "processManifestFile env path w mf = (Some e, ws2)"
  shows "processManifests env ws path coll collResources = (Some e, ws2)"
proof -
  have "processManifests_loop env path (start env ws coll collResources) (pre @ mf # post)
      = (Some e, ws2)"
    using processManifests_loop_append [OF assms(2), of "mf # post"] assms(3) by simp
  then show ?thesis using assms(1) by (simp add: processManifests_start)
qed

subsection \<open>The tree of API fields\<close>


















subsection \<open>Markers, samples and failures\<close>

lemmas sample_eval =
  sampleEnv_def sampleSpec_def sampleMarkers_def processMarkers_def processMarkers_content_def
  processManifestFile_def addMarkerField_def markerSample_def markerComments_def
  formatProcessError_def start_def init_def Split_def

text \<open>
  Claim C6, as the code has it: a collection field marker reaches \<open>AddField\<close> only in a
  unit flagged as collection, so in any other unit the result is that of the same markers
  with the collection field markers removed; in the pass of a collection over documents
  that are not its own resources a field marker never reaches \<open>AddField\<close>; and the token
  \<open>!!var collection\<close> is replaced by \<open>!!var parent\<close> in the marshalled text exactly when
  the unit is a collection processing its own resources, the text being left as it is in
  every other pass.
\<close>

theorem marker_scoping:
  "(\<not> collection ws \<longrightarrow>
      processMarkerResults env ws rs
        = processMarkerResults env ws
            (filter (\<lambda>m. \<not> isCollectionFieldMarker (Object m)) rs))
   \<and> (collection ws \<and> \<not> collectionResources ws \<longrightarrow>
      processMarkerResults env ws rs
        = processMarkerResults env ws (filter (\<lambda>m. \<not> isFieldMarker (Object m)) rs))
   \<and> (processMarkers_content env ws mf = (Inr content, ws') \<longrightarrow>
      processMarkers env ws mf
        = (Inr (extractManifests env
                 (if collection ws \<and> collectionResources ws
                  then ReplaceAll content ''!!var collection'' ''!!var parent''
                  else content)), ws'))"
proof (intro conjI impI)
  assume "\<not> collection ws"
  then show "processMarkerResults env ws rs
        = processMarkerResults env ws
            (filter (\<lambda>m. \<not> isCollectionFieldMarker (Object m)) rs)"
    by (rule skip_collection_markers)
next
  assume "collection ws \<and> \<not> collectionResources ws"
  then show "processMarkerResults env ws rs
        = processMarkerResults env ws (filter (\<lambda>m. \<not> isFieldMarker (Object m)) rs)"
    using skip_field_markers by blast
next
  assume c: "processMarkers_content env ws mf = (Inr content, ws')"
  from processMarkers_content_frame [OF c]
  show "processMarkers env ws mf
        = (Inr (extractManifests env
                 (if collection ws \<and> collectionResources ws
                  then ReplaceAll content ''!!var collection'' ''!!var parent''
                  else content)), ws')"
    using c by (simp add: processMarkers_def)
qed

theorem marker_scoping_witness:
  "\<not> collection (sampleSpec [])
   \<and> processMarkerResults sampleEnv (sampleSpec []) sampleMarkers
      = (None, (sampleSpec [])\<lparr>APISpecFields := [(''replicas'', VInt 3, False)]\<rparr>)
   \<and> processMarkerResults sampleEnv ((sampleSpec [])\<lparr>collection := True\<rparr>) sampleMarkers
      = (None, (sampleSpec [])\<lparr>APISpecFields := [(''name'', VString ''widget'', False)],
                                 collection := True\<rparr>)
   \<and> fst (processMarkers sampleEnv
            ((sampleSpec [])\<lparr>collection := True, collectionResources := True\<rparr>) ''dir/a.yaml'')
      = Inr [''---'' @ [CHR 0x0A] @ ''name: !!var parent.name'']"
  using marker_scoping [of "sampleSpec []" sampleEnv sampleMarkers]
    marker_scoping [of "(sampleSpec [])\<lparr>collection := True\<rparr>" sampleEnv sampleMarkers]
    marker_scoping
      [of "(sampleSpec [])\<lparr>collection := True, collectionResources := True\<rparr>" sampleEnv
          sampleMarkers "''dir/a.yaml''" "''---'' @ [CHR 0x0A] @ ''name: !!var collection.name''"
          "snd (processMarkers_content sampleEnv
                  ((sampleSpec [])\<lparr>collection := True, collectionResources := True\<rparr>)
                  ''dir/a.yaml'')"]
  by (simp add: sample_eval isFieldMarker_def isCollectionFieldMarker_def)

text \<open>
  The claim as stated places the replacement in the processing of component documents.
  In a unit that is not a collection the collection field marker is skipped and the token
  stays in the text that is handed on.
\<close>

theorem marker_scoping_counterexample:
  "fst (processMarkers sampleEnv (sampleSpec [''a.yaml'']) ''dir/a.yaml'')
     = Inr [''---'' @ [CHR 0x0A] @ ''name: !!var collection.name'']
   \<and> APISpecFields (snd (processMarkers sampleEnv (sampleSpec [''a.yaml'']) ''dir/a.yaml''))
     = [(''replicas'', VInt 3, False)]"
  by (simp add: sample_eval)



text \<open>
  Claim C8: the result of \<open>processManifests\<close>, error and state with source files,
  children and API fields, depends on the state it starts from only through the list of
  resources; hence running it again on the state it left gives the same result. The
  functions of the environment are read as functions of their arguments.
\<close>

theorem processManifests_deterministic:
  "(Resources ws2 = Resources ws1 \<longrightarrow>
      processManifests env ws2 path coll collResources
        = processManifests env ws1 path coll collResources)
   \<and> processManifests env (snd (processManifests env ws1 path coll collResources))
        path coll collResources
        = processManifests env ws1 path coll collResources"
proof -
  have a: "processManifests env w2 path coll collResources
        = processManifests env w1 path coll collResources"
    if "Resources w2 = Resources w1" for w1 w2
    using that start_Resources [OF that, of env coll collResources]
    by (simp add: processManifests_start)
  show ?thesis
    using a [of ws2 ws1] a [OF processManifests_Resources [of env ws1 path coll collResources]]
    by blast
qed

theorem processManifests_deterministic_witness:
  "Resources ((sampleSpec [''a.yaml''])
       \<lparr>APISpecFields := [(''stale'', VNil, True)],
        SourceFiles := [\<lparr>Filename = ''stale.go'', Children = []\<rparr>]\<rparr>)
     = Resources (sampleSpec [''a.yaml''])
   \<and> processManifests sampleEnv
        ((sampleSpec [''a.yaml''])
           \<lparr>APISpecFields := [(''stale'', VNil, True)],
            SourceFiles := [\<lparr>Filename = ''stale.go'', Children = []\<rparr>]\<rparr>)
        ''w.yaml'' False False
     = processManifests sampleEnv (sampleSpec [''a.yaml'']) ''w.yaml'' False False
   \<and> map Filename (SourceFiles (snd (processManifests sampleEnv (sampleSpec [''a.yaml''])
        ''w.yaml'' False False))) = [''a.go'']"
  using processManifests_deterministic
    [of "(sampleSpec [''a.yaml''])
           \<lparr>APISpecFields := [(''stale'', VNil, True)],
            SourceFiles := [\<lparr>Filename = ''stale.go'', Children = []\<rparr>]\<rparr>"
        "sampleSpec [''a.yaml'']" sampleEnv "''w.yaml''" False False]
  by (simp add: sample_eval processManifests_def deduplicateFileNames_def
      generateUniqueResourceName_v1_def versionGroupFromAPIVersion_def Let_def)

text \<open>
  Claim C9: processing is fail-stop. When the manifests before \<open>mf\<close> are processed
  without error, each of the seven steps that can fail on \<open>mf\<close> makes
  \<open>processManifests\<close> return an error, whatever manifests follow: reading the file,
  creating the inspector, inspecting the YAML, marshalling a node, adding the field of a
  marker in scope, decoding a manifest into an object, and generating the source code of a
  resource. The message is \<open>error processing file\<close>, the file and the cause: the file
  is named by the path that was read for the first five steps, and by its name in the list
  of resources for the last two. The state returned is the one reached at the failure.
  Conversely, an error returned by \<open>processManifests\<close> is the error of a first failing
  manifest.
\<close>

theorem processManifests_fail_stop:
  "(Resources ws = pre @ mf # post
      \<and> processManifests_loop env path (start env ws coll collResources) pre = (None, w)
    \<longrightarrow>
      (processManifestFile env path w mf = (Some e, wsFail)
        \<longrightarrow> processManifests env ws path coll collResources = (Some e, wsFail)
            \<and> (\<exists>cause. e = ''error processing file '' @ JoinDir env path mf @ ''; '' @ cause
                     \<or> e = ''error processing file '' @ mf @ ''; '' @ cause))
      \<and> (ReadFile env (JoinDir env path mf) = Inl err
        \<longrightarrow> processManifests env ws path coll collResources
            = (Some (''error processing file '' @ JoinDir env path mf @ ''; '' @ err), w))
      \<and> (ReadFile env (JoinDir env path mf) = Inr content
          \<and> InitializeMarkerInspector env = Inl err
        \<longrightarrow> processManifests env ws path coll collResources
            = (Some (''error processing file '' @ JoinDir env path mf @ ''; '' @ err), w))
      \<and> (ReadFile env (JoinDir env path mf) = Inr content
          \<and> InitializeMarkerInspector env = Inr insp
          \<and> InspectYAML env insp content = Inl err
        \<longrightarrow> processManifests env ws path coll collResources
            = (Some (''error processing file '' @ JoinDir env path mf @ ''; '' @ err), w))
      \<and> (ReadFile env (JoinDir env path mf) = Inr content
          \<and> InitializeMarkerInspector env = Inr insp
          \<and> InspectYAML env insp content = Inr (ns @ node # ns', rs)
          \<and> (\<forall>n \<in> set ns. \<exists>m. Marshal env n = Inr m)
          \<and> Marshal env node = Inl err
        \<longrightarrow> processManifests env ws path coll collResources
            = (Some (''error processing file '' @ JoinDir env path mf @ ''; '' @ err), w))
      \<and> (ReadFile env (JoinDir env path mf) = Inr content
          \<and> InitializeMarkerInspector env = Inr insp
          \<and> InspectYAML env insp content = Inr (nodes, rsa @ markerResult # rsb)
          \<and> (\<forall>n \<in> set nodes. \<exists>m. Marshal env n = Inr m)
          \<and> processMarkerResults env w rsa = (None, wm)
          \<and> markerInScope w (Object markerResult) = Some r
          \<and> AddField env (APISpecFields wm) (Name r) (Type r) (markerComments r)
                (snd (markerSample r)) (fst (markerSample r)) = (Some err, f)
        \<longrightarrow> processManifests env ws path coll collResources
            = (Some (''error processing file '' @ JoinDir env path mf @ ''; '' @ err),
               wm\<lparr>APISpecFields := f\<rparr>))
      \<and> (processMarkers env w (JoinDir env path mf) = (Inr (ms @ manifest # ms'), wa)
          \<and> processManifestObjects env wa mf ms [] = (Inr children, wb)
          \<and> DecodeInto env manifest = Inl err
        \<longrightarrow> processManifests env ws path coll collResources
            = (Some (''error processing file '' @ mf @ ''; '' @ err), wb))
      \<and> (processMarkers env w (JoinDir env path mf) = (Inr (ms @ manifest # ms'), wa)
          \<and> processManifestObjects env wa mf ms [] = (Inr children, wb)
          \<and> DecodeInto env manifest = Inr manifestObject
          \<and> Generate env manifest ''resourceObj'' = Inl err
        \<longrightarrow> fst (processManifests env ws path coll collResources)
            = Some (''error processing file '' @ mf @ ''; '' @ err)))
   \<and> (processManifests env ws path coll collResources = (Some e', wsEnd)
    \<longrightarrow> (\<exists>pre' mf' post' ws1'.
           Resources ws = pre' @ mf' # post'
           \<and> processManifests_loop env path (start env ws coll collResources) pre'
               = (None, ws1')
           \<and> processManifestFile env path ws1' mf' = (Some e', wsEnd)))"
proof (rule conjI)
  show "Resources ws = pre @ mf # post
      \<and> processManifests_loop env path (start env ws coll collResources) pre = (None, w)
    \<longrightarrow>
      (processManifestFile env path w mf = (Some e, wsFail)
        \<longrightarrow> processManifests env ws path coll collResources = (Some e, wsFail)
            \<and> (\<exists>cause. e = ''error processing file '' @ JoinDir env path mf @ ''; '' @ cause
                     \<or> e = ''error processing file '' @ mf @ ''; '' @ cause))
      \<and> (ReadFile env (JoinDir env path mf) = Inl err
        \<longrightarrow> processManifests env ws path coll collResources
            = (Some (''error processing file '' @ JoinDir env path mf @ ''; '' @ err), w))
      \<and> (ReadFile env (JoinDir env path mf) = Inr content
          \<and> InitializeMarkerInspector env = Inl err
        \<longrightarrow> processManifests env ws path coll collResources
            = (Some (''error processing file '' @ JoinDir env path mf @ ''; '' @ err), w))
      \<and> (ReadFile env (JoinDir env path mf) = Inr content
          \<and> InitializeMarkerInspector env = Inr insp
          \<and> InspectYAML env insp content = Inl err
        \<longrightarrow> processManifests env ws path coll collResources
            = (Some (''error processing file '' @ JoinDir env path mf @ ''; '' @ err), w))
      \<and> (ReadFile env (JoinDir env path mf) = Inr content
          \<and> InitializeMarkerInspector env = Inr insp
          \<and> InspectYAML env insp content = Inr (ns @ node # ns', rs)
          \<and> (\<forall>n \<in> set ns. \<exists>m. Marshal env n = Inr m)
          \<and> Marshal env node = Inl err
        \<longrightarrow> processManifests env ws path coll collResources
            = (Some (''error processing file '' @ JoinDir env path mf @ ''; '' @ err), w))
      \<and> (ReadFile env (JoinDir env path mf) = Inr content
          \<and> InitializeMarkerInspector env = Inr insp
          \<and> InspectYAML env insp content = Inr (nodes, rsa @ markerResult # rsb)
          \<and> (\<forall>n \<in> set nodes. \<exists>m. Marshal env n = Inr m)
          \<and> processMarkerResults env w rsa = (None, wm)
          \<and> markerInScope w (Object markerResult) = Some r
          \<and> AddField env (APISpecFields wm) (Name r) (Type r) (markerComments r)
                (snd (markerSample r)) (fst (markerSample r)) = (Some err, f)
        \<longrightarrow> processManifests env ws path coll collResources
            = (Some (''error processing file '' @ JoinDir env path mf @ ''; '' @ err),
               wm\<lparr>APISpecFields := f\<rparr>))
      \<and> (processMarkers env w (JoinDir env path mf) = (Inr (ms @ manifest # ms'), wa)
          \<and> processManifestObjects env wa mf ms [] = (Inr children, wb)
          \<and> DecodeInto env manifest = Inl err
        \<longrightarrow> processManifests env ws path coll collResources
            = (Some (''error processing file '' @ mf @ ''; '' @ err), wb))
      \<and> (processMarkers env w (JoinDir env path mf) = (Inr (ms @ manifest # ms'), wa)
          \<and> processManifestObjects env wa mf ms [] = (Inr children, wb)
          \<and> DecodeInto env manifest = Inr manifestObject
          \<and> Generate env manifest ''resourceObj'' = Inl err
        \<longrightarrow> fst (processManifests env ws path coll collResources)
            = Some (''error processing file '' @ mf @ ''; '' @ err))"
  proof (intro impI)
    assume "Resources ws = pre @ mf # post
      \<and> processManifests_loop env path (start env ws coll collResources) pre = (None, w)"
    then have res: "Resources ws = pre @ mf # post"
      and pre: "processManifests_loop env path (start env ws coll collResources) pre = (None, w)"
      by simp_all
    note first = processManifests_first_failure [OF res pre]
    let ?file = "JoinDir env path mf"
    have general: "processManifests env ws path coll collResources = (Some e, wsFail)
            \<and> (\<exists>cause. e = ''error processing file '' @ ?file @ ''; '' @ cause
                     \<or> e = ''error processing file '' @ mf @ ''; '' @ cause)"
      if bad: "processManifestFile env path w mf = (Some e, wsFail)"
      using first [OF bad] processManifestFile_error [OF bad]
      by (simp add: formatProcessError_def)
    have markers: "processManifests env ws path coll collResources
        = (Some (''error processing file '' @ ?file @ ''; '' @ x), w')"
      if "processMarkers_content env w ?file = (Inl (formatProcessError ?file x), w')" for x w'
      using first [OF processManifestFile_markers_fail [OF that]]
      by (simp add: formatProcessError_def)
    have rd: "processManifests env ws path coll collResources
        = (Some (''error processing file '' @ ?file @ ''; '' @ err), w)"
      if "ReadFile env ?file = Inl err"
      by (rule markers [OF processMarkers_content_read_fail [OF that]])
    have ini: "processManifests env ws path coll collResources
        = (Some (''error processing file '' @ ?file @ ''; '' @ err), w)"
      if "ReadFile env ?file = Inr content \<and> InitializeMarkerInspector env = Inl err"
      using that markers [OF processMarkers_content_init_fail] by blast
    have insp: "processManifests env ws path coll collResources
        = (Some (''error processing file '' @ ?file @ ''; '' @ err), w)"
      if "ReadFile env ?file = Inr content \<and> InitializeMarkerInspector env = Inr insp
          \<and> InspectYAML env insp content = Inl err"
      using that markers [OF processMarkers_content_inspect_fail] by blast
    have mar: "processManifests env ws path coll collResources
        = (Some (''error processing file '' @ ?file @ ''; '' @ err), w)"
      if "ReadFile env ?file = Inr content \<and> InitializeMarkerInspector env = Inr insp
          \<and> InspectYAML env insp content = Inr (ns @ node # ns', rs)
          \<and> (\<forall>n \<in> set ns. \<exists>m. Marshal env n = Inr m)
          \<and> Marshal env node = Inl err"
      using that markers [OF processMarkers_content_marshal_fail] by blast
    have add: "processManifests env ws path coll collResources
        = (Some (''error processing file '' @ ?file @ ''; '' @ err), wm\<lparr>APISpecFields := f\<rparr>)"
      if "ReadFile env ?file = Inr content \<and> InitializeMarkerInspector env = Inr insp
          \<and> InspectYAML env insp content = Inr (nodes, rsa @ markerResult # rsb)
          \<and> (\<forall>n \<in> set nodes. \<exists>m. Marshal env n = Inr m)
          \<and> processMarkerResults env w rsa = (None, wm)
          \<and> markerInScope w (Object markerResult) = Some r
          \<and> AddField env (APISpecFields wm) (Name r) (Type r) (markerComments r)
                (snd (markerSample r)) (fst (markerSample r)) = (Some err, f)"
      using that markers [OF processMarkers_content_addField_fail] by blast
    have dec: "processManifests env ws path coll collResources
        = (Some (''error processing file '' @ mf @ ''; '' @ err), wb)"
      if "processMarkers env w ?file = (Inr (ms @ manifest # ms'), wa)
          \<and> processManifestObjects env wa mf ms [] = (Inr children, wb)
          \<and> DecodeInto env manifest = Inl err"
      using that first [OF processManifestFile_decode_fail]
      by (simp add: formatProcessError_def)
    have gen: "fst (processManifests env ws path coll collResources)
        = Some (''error processing file '' @ mf @ ''; '' @ err)"
      if h: "processMarkers env w ?file = (Inr (ms @ manifest # ms'), wa)
          \<and> processManifestObjects env wa mf ms [] = (Inr children, wb)
          \<and> DecodeInto env manifest = Inr manifestObject
          \<and> Generate env manifest ''resourceObj'' = Inl err"
    proof -
      from h have "fst (processManifestFile env path w mf) = Some (formatProcessError mf err)"
        using processManifestFile_generate_fail by blast
      then have "processManifestFile env path w mf
          = (Some (formatProcessError mf err), snd (processManifestFile env path w mf))"
        by (metis prod.collapse)
      from first [OF this] show ?thesis by (simp add: formatProcessError_def)
    qed
    show "(processManifestFile env path w mf = (Some e, wsFail)
        \<longrightarrow> processManifests env ws path coll collResources = (Some e, wsFail)
            \<and> (\<exists>cause. e = ''error processing file '' @ JoinDir env path mf @ ''; '' @ cause
                     \<or> e = ''error processing file '' @ mf @ ''; '' @ cause))
      \<and> (ReadFile env (JoinDir env path mf) = Inl err
        \<longrightarrow> processManifests env ws path coll collResources
            = (Some (''error processing file '' @ JoinDir env path mf @ ''; '' @ err), w))
      \<and> (ReadFile env (JoinDir env path mf) = Inr content
          \<and> InitializeMarkerInspector env = Inl err
        \<longrightarrow> processManifests env ws path coll collResources
            = (Some (''error processing file '' @ JoinDir env path mf @ ''; '' @ err), w))
      \<and> (ReadFile env (JoinDir env path mf) = Inr content
          \<and> InitializeMarkerInspector env = Inr insp
          \<and> InspectYAML env insp content = Inl err
        \<longrightarrow> processManifests env ws path coll collResources
            = (Some (''error processing file '' @ JoinDir env path mf @ ''; '' @ err), w))
      \<and> (ReadFile env (JoinDir env path mf) = Inr content
          \<and> InitializeMarkerInspector env = Inr insp
          \<and> InspectYAML env insp content = Inr (ns @ node # ns', rs)
          \<and> (\<forall>n \<in> set ns. \<exists>m. Marshal env n = Inr m)
          \<and> Marshal env node = Inl err
        \<longrightarrow> processManifests env ws path coll collResources
            = (Some (''error processing file '' @ JoinDir env path mf @ ''; '' @ err), w))
      \<and> (ReadFile env (JoinDir env path mf) = Inr content
          \<and> InitializeMarkerInspector env = Inr insp
          \<and> InspectYAML env insp content = Inr (nodes, rsa @ markerResult # rsb)
          \<and> (\<forall>n \<in> set nodes. \<exists>m. Marshal env n = Inr m)
          \<and> processMarkerResults env w rsa = (None, wm)
          \<and> markerInScope w (Object markerResult) = Some r
          \<and> AddField env (APISpecFields wm) (Name r) (Type r) (markerComments r)
                (snd (markerSample r)) (fst (markerSample r)) = (Some err, f)
        \<longrightarrow> processManifests env ws path coll collResources
            = (Some (''error processing file '' @ JoinDir env path mf @ ''; '' @ err),
               wm\<lparr>APISpecFields := f\<rparr>))
      \<and> (processMarkers env w (JoinDir env path mf) = (Inr (ms @ manifest # ms'), wa)
          \<and> processManifestObjects env wa mf ms [] = (Inr children, wb)
          \<and> DecodeInto env manifest = Inl err
        \<longrightarrow> processManifests env ws path coll collResources
            = (Some (''error processing file '' @ mf @ ''; '' @ err), wb))
      \<and> (processMarkers env w (JoinDir env path mf) = (Inr (ms @ manifest # ms'), wa)
          \<and> processManifestObjects env wa mf ms [] = (Inr children, wb)
          \<and> DecodeInto env manifest = Inr manifestObject
          \<and> Generate env manifest ''resourceObj'' = Inl err
        \<longrightarrow> fst (processManifests env ws path coll collResources)
            = Some (''error processing file '' @ mf @ ''; '' @ err))"
      using general rd ini insp mar add dec gen by blast
  qed
next
  show "processManifests env ws path coll collResources = (Some e', wsEnd)
    \<longrightarrow> (\<exists>pre' mf' post' ws1'.
           Resources ws = pre' @ mf' # post'
           \<and> processManifests_loop env path (start env ws coll collResources) pre'
               = (None, ws1')
           \<and> processManifestFile env path ws1' mf' = (Some e', wsEnd))"
  proof
    assume run: "processManifests env ws path coll collResources = (Some e', wsEnd)"
    obtain r w where loop:
      "processManifests_loop env path (start env ws coll collResources) (Resources ws) = (r, w)"
      by fastforce
    with run have "r = Some e'" "w = wsEnd"
      by (cases r; simp add: processManifests_start)+
    with loop processManifests_loop_error
    show "\<exists>pre' mf' post' ws1'.
           Resources ws = pre' @ mf' # post'
           \<and> processManifests_loop env path (start env ws coll collResources) pre'
               = (None, ws1')
           \<and> processManifestFile env path ws1' mf' = (Some e', wsEnd)"
      by blast
  qed
qed

theorem processManifests_fail_stop_witness:
  "fst (processManifests sampleEnv (sampleSpec [''a.yaml'', ''b.yaml'', ''c.yaml'']) ''w.yaml''
          False False)
     = Some ''error processing file dir/b.yaml; no such file''
   \<and> fst (processManifests (sampleEnv\<lparr>InitializeMarkerInspector := Inl ''no inspector''\<rparr>)
          (sampleSpec [''a.yaml'', ''c.yaml'']) ''w.yaml'' False False)
     = Some ''error processing file dir/a.yaml; no inspector''
   \<and> fst (processManifests (sampleEnv\<lparr>InspectYAML := (\<lambda>insp content. Inl ''bad yaml'')\<rparr>)
          (sampleSpec [''a.yaml'', ''c.yaml'']) ''w.yaml'' False False)
     = Some ''error processing file dir/a.yaml; bad yaml''
   \<and> fst (processManifests (sampleEnv\<lparr>Marshal := (\<lambda>node. Inl ''cannot marshal'')\<rparr>)
          (sampleSpec [''a.yaml'', ''c.yaml'']) ''w.yaml'' False False)
     = Some ''error processing file dir/a.yaml; cannot marshal''
   \<and> fst (processManifests
          (sampleEnv\<lparr>AddField := (\<lambda>apiFields name typ comments sampleVal defaultFound.
                                     (Some ''conflicting type'', apiFields))\<rparr>)
          (sampleSpec [''a.yaml'', ''c.yaml'']) ''w.yaml'' False False)
     = Some ''error processing file dir/a.yaml; conflicting type''
   \<and> fst (processManifests (sampleEnv\<lparr>DecodeInto := (\<lambda>manifest. Inl ''not an object'')\<rparr>)
          (sampleSpec [''a.yaml'', ''c.yaml'']) ''w.yaml'' False False)
     = Some ''error processing file a.yaml; not an object''
   \<and> fst (processManifests
          (sampleEnv\<lparr>Generate := (\<lambda>manifest varName. Inl ''cannot generate'')\<rparr>)
          (sampleSpec [''a.yaml'', ''c.yaml'']) ''w.yaml'' False False)
     = Some ''error processing file a.yaml; cannot generate''"
  using processManifests_fail_stop
    [where ws = "sampleSpec [''a.yaml'', ''b.yaml'', ''c.yaml'']" and pre = "[''a.yaml'']"
       and mf = "''b.yaml''" and post = "[''c.yaml'']" and env = sampleEnv
       and path = "''w.yaml''" and coll = False and collResources = False
       and w = "snd (processManifests_loop sampleEnv ''w.yaml''
                  (start sampleEnv (sampleSpec [''a.yaml'', ''b.yaml'', ''c.yaml'']) False False)
                  [''a.yaml''])"
       and err = "''no such file''"]
    processManifests_fail_stop
    [where ws = "sampleSpec [''a.yaml'', ''c.yaml'']" and pre = "[]"
       and mf = "''a.yaml''" and post = "[''c.yaml'']"
       and env = "sampleEnv\<lparr>InitializeMarkerInspector := Inl ''no inspector''\<rparr>"
       and path = "''w.yaml''" and coll = False and collResources = False
       and w = "start (sampleEnv\<lparr>InitializeMarkerInspector := Inl ''no inspector''\<rparr>)
                  (sampleSpec [''a.yaml'', ''c.yaml'']) False False"
       and content = "''name: !!var collection.name''" and err = "''no inspector''"]
    processManifests_fail_stop
    [where ws = "sampleSpec [''a.yaml'', ''c.yaml'']" and pre = "[]"
       and mf = "''a.yaml''" and post = "[''c.yaml'']"
       and env = "sampleEnv\<lparr>InspectYAML := (\<lambda>insp content. Inl ''bad yaml'')\<rparr>"
       and path = "''w.yaml''" and coll = False and collResources = False
       and w = "start (sampleEnv\<lparr>InspectYAML := (\<lambda>insp content. Inl ''bad yaml'')\<rparr>)
                  (sampleSpec [''a.yaml'', ''c.yaml'']) False False"
       and content = "''name: !!var collection.name''" and insp = "()"
       and err = "''bad yaml''"]
    processManifests_fail_stop
    [where ws = "sampleSpec [''a.yaml'', ''c.yaml'']" and pre = "[]"
       and mf = "''a.yaml''" and post = "[''c.yaml'']"
       and env = "sampleEnv\<lparr>Marshal := (\<lambda>node. Inl ''cannot marshal'')\<rparr>"
       and path = "''w.yaml''" and coll = False and collResources = False
       and w = "start (sampleEnv\<lparr>Marshal := (\<lambda>node. Inl ''cannot marshal'')\<rparr>)
                  (sampleSpec [''a.yaml'', ''c.yaml'']) False False"
       and content = "''name: !!var collection.name''" and insp = "()"
       and ns = "[]" and node = "''name: !!var collection.name''" and ns' = "[]"
       and rs = sampleMarkers and err = "''cannot marshal''"]
    processManifests_fail_stop
    [where ws = "sampleSpec [''a.yaml'', ''c.yaml'']" and pre = "[]"
       and mf = "''a.yaml''" and post = "[''c.yaml'']"
       and env = "sampleEnv\<lparr>AddField := (\<lambda>apiFields name typ comments sampleVal defaultFound.
                                     (Some ''conflicting type'', apiFields))\<rparr>"
       and path = "''w.yaml''" and coll = False and collResources = False
       and w = "start (sampleEnv\<lparr>AddField := (\<lambda>apiFields name typ comments sampleVal
                                     defaultFound. (Some ''conflicting type'', apiFields))\<rparr>)
                  (sampleSpec [''a.yaml'', ''c.yaml'']) False False"
       and wm = "start (sampleEnv\<lparr>AddField := (\<lambda>apiFields name typ comments sampleVal
                                     defaultFound. (Some ''conflicting type'', apiFields))\<rparr>)
                  (sampleSpec [''a.yaml'', ''c.yaml'']) False False"
       and content = "''name: !!var collection.name''" and insp = "()"
       and nodes = "[''name: !!var collection.name'']"
       and rsa = "[hd sampleMarkers]" and markerResult = "sampleMarkers ! 1" and rsb = "[]"
       and r = "\<lparr>Name = ''replicas'', Type = FieldInt, Description = Some ''Number of replicas'',
                 Default = VNil, originalValue = VInt 3\<rparr>"
       and f = "[]" and err = "''conflicting type''"]
    processManifests_fail_stop
    [where ws = "sampleSpec [''a.yaml'', ''c.yaml'']" and pre = "[]"
       and mf = "''a.yaml''" and post = "[''c.yaml'']"
       and env = "sampleEnv\<lparr>DecodeInto := (\<lambda>manifest. Inl ''not an object'')\<rparr>"
       and path = "''w.yaml''" and coll = False and collResources = False
       and w = "start (sampleEnv\<lparr>DecodeInto := (\<lambda>manifest. Inl ''not an object'')\<rparr>)
                  (sampleSpec [''a.yaml'', ''c.yaml'']) False False"
       and ms = "[]" and manifest = "''---'' @ [CHR 0x0A] @ ''name: !!var collection.name''"
       and ms' = "[]"
       and wa = "snd (processMarkers
                  (sampleEnv\<lparr>DecodeInto := (\<lambda>manifest. Inl ''not an object'')\<rparr>)
                  (start (sampleEnv\<lparr>DecodeInto := (\<lambda>manifest. Inl ''not an object'')\<rparr>)
                     (sampleSpec [''a.yaml'', ''c.yaml'']) False False) ''dir/a.yaml'')"
       and wb = "snd (processMarkers
                  (sampleEnv\<lparr>DecodeInto := (\<lambda>manifest. Inl ''not an object'')\<rparr>)
                  (start (sampleEnv\<lparr>DecodeInto := (\<lambda>manifest. Inl ''not an object'')\<rparr>)
                     (sampleSpec [''a.yaml'', ''c.yaml'']) False False) ''dir/a.yaml'')"
       and children = "[]" and err = "''not an object''"]
    processManifests_fail_stop
    [where ws = "sampleSpec [''a.yaml'', ''c.yaml'']" and pre = "[]"
       and mf = "''a.yaml''" and post = "[''c.yaml'']"
       and env = "sampleEnv\<lparr>Generate := (\<lambda>manifest varName. Inl ''cannot generate'')\<rparr>"
       and path = "''w.yaml''" and coll = False and collResources = False
       and w = "start (sampleEnv\<lparr>Generate := (\<lambda>manifest varName. Inl ''cannot generate'')\<rparr>)
                  (sampleSpec [''a.yaml'', ''c.yaml'']) False False"
       and ms = "[]" and manifest = "''---'' @ [CHR 0x0A] @ ''name: !!var collection.name''"
       and ms' = "[]"
       and wa = "snd (processMarkers
                  (sampleEnv\<lparr>Generate := (\<lambda>manifest varName. Inl ''cannot generate'')\<rparr>)
                  (start (sampleEnv\<lparr>Generate := (\<lambda>manifest varName. Inl ''cannot generate'')\<rparr>)
                     (sampleSpec [''a.yaml'', ''c.yaml'']) False False) ''dir/a.yaml'')"
       and wb = "snd (processMarkers
                  (sampleEnv\<lparr>Generate := (\<lambda>manifest varName. Inl ''cannot generate'')\<rparr>)
                  (start (sampleEnv\<lparr>Generate := (\<lambda>manifest varName. Inl ''cannot generate'')\<rparr>)
                     (sampleSpec [''a.yaml'', ''c.yaml'']) False False) ''dir/a.yaml'')"
       and children = "[]"
       and manifestObject = "\<lparr>GetAPIVersion = ''v1'', GetKind = ''ConfigMap'',
                               GetNamespace = ''default'', GetName = ''app-config''\<rparr>"
       and err = "''cannot generate''"]
  by (simp add: sample_eval markerInScope_def generateUniqueResourceName_v1_def
      versionGroupFromAPIVersion_def Let_def)

section \<open>Properties of the schema merge\<close>

lemma scanSpecFields_eq:
  "scanSpecFields h csf specFields fieldPresent
     = (if DocumentationLines (h csf) = [] then h else overwriteDocs h csf specFields,
        fieldPresent \<or> FieldName (h csf) \<in> (\<lambda>a. FieldName (h a)) ` set specFields)"
proof (induction specFields arbitrary: h fieldPresent)
  case Nil
  then show ?case by (auto simp: overwriteDocs_def)
next
  case (Cons sf rest)
  show ?case
  proof (cases "FieldName (h sf) = FieldName (h csf)")
    case False
    then show ?thesis using Cons.IH [of h fieldPresent]
      by (auto simp: overwriteDocs_def fun_eq_iff)
  next
    case same: True
    show ?thesis
    proof (cases "DocumentationLines (h csf) = []")
      case True
      then show ?thesis using same Cons.IH [of h True] by auto
    next
      case False
      let ?h1 = "h(sf := (h sf)\<lparr>DocumentationLines := DocumentationLines (h csf)\<rparr>)"
      have names: "FieldName (?h1 a) = FieldName (h a)" for a by simp
      have docs: "DocumentationLines (?h1 csf) = DocumentationLines (h csf)" by simp
      have ow: "overwriteDocs ?h1 csf rest = overwriteDocs h csf (sf # rest)"
      proof (rule ext)
        fix a
        show "overwriteDocs ?h1 csf rest a = overwriteDocs h csf (sf # rest) a"
        proof (cases "a = sf")
          case True
          have "overwriteDocs ?h1 csf rest sf
              = (h sf)\<lparr>DocumentationLines := DocumentationLines (h csf)\<rparr>"
            unfolding overwriteDocs_def names docs by simp
          moreover have "overwriteDocs h csf (sf # rest) sf
              = (h sf)\<lparr>DocumentationLines := DocumentationLines (h csf)\<rparr>"
            unfolding overwriteDocs_def using same by simp
          ultimately show ?thesis using True by simp
        next
          case False
          then have "?h1 a = h a" by simp
          then show ?thesis
            unfolding overwriteDocs_def names docs using False by simp
        qed
      qed
      have "scanSpecFields h csf (sf # rest) fieldPresent = scanSpecFields ?h1 csf rest True"
        using same False by simp
      also have "\<dots> = (overwriteDocs ?h1 csf rest, True)"
        unfolding Cons.IH [of ?h1 True] using False docs by simp
      finally have "scanSpecFields h csf (sf # rest) fieldPresent
          = (overwriteDocs h csf (sf # rest), True)"
        using ow by simp
      moreover have "FieldName (h csf) \<in> (\<lambda>a. FieldName (h a)) ` set (sf # rest)"
        using same by (metis imageI list.set_intros(1))
      ultimately show ?thesis using False by simp
    qed
  qed
qed

lemma lastNonEmptyDocs_snoc:
  "lastNonEmptyDocs h (seen @ [b]) n
     = (if FieldName (h b) = n \<and> DocumentationLines (h b) \<noteq> [] then DocumentationLines (h b)
        else lastNonEmptyDocs h seen n)"
  by (simp add: lastNonEmptyDocs_def Let_def)

lemma lastNonEmptyDocs_absent:
  "n \<notin> (\<lambda>a. FieldName (h a)) ` set seen \<Longrightarrow> lastNonEmptyDocs h seen n = []"
proof -
  assume "n \<notin> (\<lambda>a. FieldName (h a)) ` set seen"
  then have "filter (\<lambda>a. FieldName (h a) = n) seen = []"
    by (auto simp: filter_empty_conv)
  then show ?thesis by (simp add: lastNonEmptyDocs_def Let_def)
qed

lemma lastNonEmptyDocs_single:
  assumes "distinct (map (\<lambda>a. FieldName (h a)) own)" and "a \<in> set own"
  shows "lastNonEmptyDocs h own (FieldName (h a)) = DocumentationLines (h a)"
  using assms
proof (induction own rule: rev_induct)
  case Nil
  then show ?case by simp
next
  case (snoc b own)
  show ?case
  proof (cases "a = b")
    case True
    have "FieldName (h b) \<notin> (\<lambda>a. FieldName (h a)) ` set own"
      using snoc.prems(1) by auto
    from lastNonEmptyDocs_absent [OF this] True show ?thesis
      by (simp add: lastNonEmptyDocs_snoc)
  next
    case False
    with snoc.prems have mem: "a \<in> set own" by simp
    have d: "distinct (map (\<lambda>a. FieldName (h a)) own)" using snoc.prems(1) by simp
    have "FieldName (h b) \<noteq> FieldName (h a)"
      using snoc.prems(1) mem by auto
    with snoc.IH [OF d mem] show ?thesis by (simp add: lastNonEmptyDocs_snoc)
  qed
qed

lemma mergeInv_start:
  "distinct (map (\<lambda>a. FieldName (h a)) own) \<Longrightarrow> mergeInv h own h own"
  by (simp add: mergeInv_def lastNonEmptyDocs_single)

lemma mergeInv_step:
  assumes inv: "mergeInv h seen g specFields"
    and fresh: "csf \<notin> set seen"
    and scan: "scanSpecFields g csf specFields False = (g', fieldPresent)"
  shows "mergeInv h (seen @ [csf]) g'
           (if \<not> fieldPresent then specFields @ [csf] else specFields)"
proof -
  let ?name = "\<lambda>a. FieldName (h a)"
  from inv have sub: "set specFields \<subseteq> set seen"
    and dist: "distinct (map ?name specFields)"
    and names: "?name ` set specFields = ?name ` set seen"
    and gname: "\<And>a. FieldName (g a) = FieldName (h a)"
    and docs: "\<And>a. a \<in> set specFields \<Longrightarrow>
                 DocumentationLines (g a) = lastNonEmptyDocs h seen (FieldName (h a))"
    and untouched: "\<And>a. a \<notin> set seen \<Longrightarrow> g a = h a"
    by (auto simp: mergeInv_def)
  have csf_g: "g csf = h csf" using untouched fresh by simp
  have csf_notin: "csf \<notin> set specFields" using sub fresh by auto
  have present: "fieldPresent \<longleftrightarrow> ?name csf \<in> ?name ` set specFields"
    using scan gname csf_g by (simp add: scanSpecFields_eq)
  have g': "g' = (if DocumentationLines (h csf) = [] then g else overwriteDocs g csf specFields)"
    using scan csf_g by (simp add: scanSpecFields_eq)
  have g'_name: "FieldName (g' a) = FieldName (h a)" for a
    using g' gname by (simp add: overwriteDocs_def)
  have g'_out: "g' a = g a" if "a \<notin> set specFields" for a
    using g' that by (simp add: overwriteDocs_def)
  have g'_other: "g' a = g a" if "FieldName (h a) \<noteq> FieldName (h csf)" for a
    using g' that gname by (simp add: overwriteDocs_def)
  have g'_docs: "DocumentationLines (g' a)
      = (if DocumentationLines (h csf) = [] then DocumentationLines (g a)
         else DocumentationLines (h csf))"
    if "a \<in> set specFields" "FieldName (h a) = FieldName (h csf)" for a
    using g' that gname csf_g by (simp add: overwriteDocs_def)
  let ?L = "if \<not> fieldPresent then specFields @ [csf] else specFields"
  have 1: "set ?L \<subseteq> set (seen @ [csf])" using sub by auto
  have 2: "distinct (map ?name ?L)" using dist present by auto
  have 3: "?name ` set ?L = ?name ` set (seen @ [csf])"
    using names present by auto
  have 5: "DocumentationLines (g' a) = lastNonEmptyDocs h (seen @ [csf]) (FieldName (h a))"
    if mem: "a \<in> set ?L" for a
  proof (cases "FieldName (h a) = FieldName (h csf)")
    case False
    then have "a \<in> set specFields" using mem by (auto split: if_splits)
    with docs [OF this] g'_other [OF False] False show ?thesis
      by (simp add: lastNonEmptyDocs_snoc)
  next
    case same: True
    show ?thesis
    proof (cases "a \<in> set specFields")
      case True
      from g'_docs [OF True same] docs [OF True] same show ?thesis
        by (simp add: lastNonEmptyDocs_snoc)
    next
      case False
      with mem have a: "a = csf" and np: "\<not> fieldPresent" by (auto split: if_splits)
      from np present names have "?name csf \<notin> ?name ` set seen" by simp
      from lastNonEmptyDocs_absent [OF this]
      have "lastNonEmptyDocs h seen (FieldName (h csf)) = []" .
      moreover have "g' csf = h csf" using g'_out [OF csf_notin] csf_g by simp
      ultimately show ?thesis using a by (simp add: lastNonEmptyDocs_snoc)
    qed
  qed
  have 6: "g' a = h a" if "a \<notin> set (seen @ [csf])" for a
  proof -
    from that have "a \<notin> set seen" by simp
    moreover from this sub have "a \<notin> set specFields" by auto
    ultimately show ?thesis using g'_out untouched by simp
  qed
  show ?thesis
    unfolding mergeInv_def using 1 2 3 g'_name 5 6 by blast
qed

lemma mergeInv_addSpecFields:
  "mergeInv h seen g specFields \<Longrightarrow> distinct (seen @ componentFields) \<Longrightarrow>
   addSpecFields g specFields componentFields = (g', specFields') \<Longrightarrow>
   mergeInv h (seen @ componentFields) g' specFields'"
proof (induction componentFields arbitrary: seen g specFields)
  case Nil
  then show ?case by simp
next
  case (Cons csf rest)
  obtain g1 fieldPresent where scan: "scanSpecFields g csf specFields False = (g1, fieldPresent)"
    by fastforce
  have fresh: "csf \<notin> set seen" using Cons.prems(2) by auto
  have inv1: "mergeInv h (seen @ [csf]) g1
      (if \<not> fieldPresent then specFields @ [csf] else specFields)"
    by (rule mergeInv_step [OF Cons.prems(1) fresh scan])
  have d1: "distinct ((seen @ [csf]) @ rest)" using Cons.prems(2) by simp
  have rec: "addSpecFields g1 (if \<not> fieldPresent then specFields @ [csf] else specFields) rest
      = (g', specFields')"
    using Cons.prems(3) scan by simp
  from Cons.IH [OF inv1 d1 rec] show ?case by simp
qed

lemma mergeInv_mergeComponents:
  "mergeInv h seen g specFields \<Longrightarrow>
   map (\<lambda>component. pm (ConfigPath component) (ComponentResources component) True False) comps
     = map Inr results \<Longrightarrow>
   distinct (seen @ concat (map SpecFields results)) \<Longrightarrow>
   \<exists>g' specFields'. mergeComponents pm g specFields comps = (Inr specFields', g')
      \<and> mergeInv h (seen @ concat (map SpecFields results)) g' specFields'"
proof (induction comps arbitrary: results seen g specFields)
  case Nil
  then show ?case by simp
next
  case (Cons component rest)
  from Cons.prems(2) obtain r rs where results: "results = r # rs"
    and call: "pm (ConfigPath component) (ComponentResources component) True False = Inr r"
    and calls: "map (\<lambda>component. pm (ConfigPath component) (ComponentResources component)
                       True False) rest = map Inr rs"
    by (cases results) auto
  obtain g1 specFields1 where add: "addSpecFields g specFields (SpecFields r) = (g1, specFields1)"
    by fastforce
  have d0: "distinct (seen @ SpecFields r)" using Cons.prems(3) results by auto
  have inv1: "mergeInv h (seen @ SpecFields r) g1 specFields1"
    by (rule mergeInv_addSpecFields [OF Cons.prems(1) d0 add])
  have d1: "distinct ((seen @ SpecFields r) @ concat (map SpecFields rs))"
    using Cons.prems(3) results by auto
  from Cons.IH [OF inv1 calls d1] call add results show ?case by simp
qed

lemma mergeInv_result:
  assumes "mergeInv h seen g specFields"
  shows "distinct (map (\<lambda>a. FieldName (g a)) specFields)
     \<and> (\<lambda>a. FieldName (g a)) ` set specFields = (\<lambda>a. FieldName (h a)) ` set seen
     \<and> (\<forall>a \<in> set specFields.
           DocumentationLines (g a) = lastNonEmptyDocs h seen (FieldName (h a)))"
proof -
  from assms have gname: "(\<lambda>a. FieldName (g a)) = (\<lambda>a. FieldName (h a))"
    by (auto simp: mergeInv_def)
  show ?thesis using assms unfolding gname by (simp add: mergeInv_def)
qed

lemmas merge_eval =
  SetResources_def samplePM_def sampleCollection_def sampleHeap_def sampleField_def
  sampleResult_def

text \<open>
  Claim C4, as the code has it: when the objects returned by the calls are pairwise
  distinct and the names of the collection's own fields are distinct, the merged list
  holds every field name of the collection and of the components exactly once, and the
  documentation of a merged field is the last non-empty documentation among the entries
  of that name, in the order collection first and then the components; a later entry
  without documentation leaves it as it is.
\<close>

theorem SetResources_merge:
  "pm workloadPath (CollectionResources c) True True = Inr resources \<Longrightarrow>
   map (\<lambda>component. pm (ConfigPath component) (ComponentResources component) True False)
     (Components c) = map Inr results \<Longrightarrow>
   seen = SpecFields resources @ concat (map SpecFields results) \<Longrightarrow>
   distinct seen \<Longrightarrow>
   distinct (map (\<lambda>a. FieldName (h a)) (SpecFields resources)) \<Longrightarrow>
   (case SetResources pm c h workloadPath of
      (err, c', h') \<Rightarrow>
        err = None
        \<and> distinct (map (\<lambda>a. FieldName (h' a)) (Spec_APISpecFields c'))
        \<and> (\<lambda>a. FieldName (h' a)) ` set (Spec_APISpecFields c')
            = (\<lambda>a. FieldName (h a)) ` set seen
        \<and> (\<forall>a \<in> set (Spec_APISpecFields c').
              DocumentationLines (h' a) = lastNonEmptyDocs h seen (FieldName (h a))))"
proof -
  assume own: "pm workloadPath (CollectionResources c) True True = Inr resources"
    and calls: "map (\<lambda>component. pm (ConfigPath component) (ComponentResources component)
                       True False) (Components c) = map Inr results"
    and seen: "seen = SpecFields resources @ concat (map SpecFields results)"
    and d: "distinct seen"
    and names: "distinct (map (\<lambda>a. FieldName (h a)) (SpecFields resources))"
  have inv0: "mergeInv h (SpecFields resources) h (SpecFields resources)"
    by (rule mergeInv_start [OF names])
  have d': "distinct (SpecFields resources @ concat (map SpecFields results))"
    using d seen by simp
  from mergeInv_mergeComponents
    [of h "SpecFields resources" h "SpecFields resources" pm "Components c" results,
     OF inv0 calls d']
  obtain g' specFields' where
    m: "mergeComponents pm h (SpecFields resources) (Components c) = (Inr specFields', g')"
    and inv: "mergeInv h seen g' specFields'"
    unfolding seen by blast
  have "SetResources pm c h workloadPath
      = (None, c\<lparr>Spec_SourceFiles := ResultSourceFiles resources,
                  Spec_RBACRules := ResultRBACRules resources,
                  Spec_OwnershipRules := ResultOwnershipRules resources,
                  Spec_APISpecFields := specFields'\<rparr>, g')"
    using own m by (simp add: SetResources_def)
  then show ?thesis using mergeInv_result [OF inv] by simp
qed

theorem SetResources_merge_witness:
  "(case SetResources samplePM sampleCollection (sampleHeap [''Request timeout''] [])
           ''collection.yaml'' of
      (err, c', h') \<Rightarrow>
        err = None \<and> Spec_APISpecFields c' = [0, 1]
        \<and> map (\<lambda>a. FieldName (h' a)) (Spec_APISpecFields c') = [''name'', ''timeout'']
        \<and> DocumentationLines (h' 1) = [''Request timeout''])"
  using SetResources_merge
    [of samplePM "''collection.yaml''" sampleCollection "sampleResult [0]"
        "[sampleResult [1], sampleResult [2]]" "[0, 1, 2]"
        "sampleHeap [''Request timeout''] []"]
  by (simp add: merge_eval)

text \<open>
  The claim as stated lets the first non-empty documentation win. With \<open>Request timeout\<close>
  in component A and \<open>Seconds to wait\<close> in component B the merged field carries the
  latter.
\<close>

theorem SetResources_merge_counterexample:
  "(case SetResources samplePM sampleCollection
           (sampleHeap [''Request timeout''] [''Seconds to wait'']) ''collection.yaml'' of
      (err, c', h') \<Rightarrow>
        err = None \<and> Spec_APISpecFields c' = [0, 1]
        \<and> DocumentationLines (h' 1) = [''Seconds to wait''])"
  by (simp add: merge_eval)

lemma sameButDocs_refl: "sameButDocs h h"
  by (simp add: sameButDocs_def)

lemma sameButDocs_trans: "sameButDocs h g \<Longrightarrow> sameButDocs g k \<Longrightarrow> sameButDocs h k"
  unfolding sameButDocs_def
proof
  assume hg: "\<forall>a. (g a)\<lparr>DocumentationLines := DocumentationLines (h a)\<rparr> = h a"
    and gk: "\<forall>a. (k a)\<lparr>DocumentationLines := DocumentationLines (g a)\<rparr> = g a"
  fix a
  from gk have "(k a)\<lparr>DocumentationLines := DocumentationLines (g a)\<rparr> = g a" by simp
  then have "((k a)\<lparr>DocumentationLines := DocumentationLines (g a)\<rparr>)
        \<lparr>DocumentationLines := DocumentationLines (h a)\<rparr>
      = (g a)\<lparr>DocumentationLines := DocumentationLines (h a)\<rparr>"
    by (rule arg_cong)
  then have "(k a)\<lparr>DocumentationLines := DocumentationLines (h a)\<rparr>
      = (g a)\<lparr>DocumentationLines := DocumentationLines (h a)\<rparr>"
    by simp
  also have "\<dots> = h a" using hg by simp
  finally show "(k a)\<lparr>DocumentationLines := DocumentationLines (h a)\<rparr> = h a" .
qed

lemma scanSpecFields_frame:
  "scanSpecFields h csf specFields fieldPresent = (h', p) \<Longrightarrow>
   sameButDocs h h' \<and> (\<forall>a. a \<notin> set specFields \<longrightarrow> h' a = h a)"
  by (auto simp: scanSpecFields_eq sameButDocs_def overwriteDocs_def split: if_splits)

lemma addSpecFields_frame:
  "addSpecFields h specFields componentFields = (h', specFields') \<Longrightarrow>
   sameButDocs h h'
   \<and> (\<exists>extra. specFields' = specFields @ extra \<and> set extra \<subseteq> set componentFields)
   \<and> (\<forall>a. a \<notin> set specFields' \<longrightarrow> h' a = h a)"
proof (induction componentFields arbitrary: h specFields)
  case Nil
  then show ?case by (simp add: sameButDocs_refl)
next
  case (Cons csf rest)
  obtain h1 p where scan: "scanSpecFields h csf specFields False = (h1, p)" by fastforce
  let ?L1 = "if \<not> p then specFields @ [csf] else specFields"
  from Cons.prems scan have rec: "addSpecFields h1 ?L1 rest = (h', specFields')" by simp
  from scanSpecFields_frame [OF scan]
  have s1: "sameButDocs h h1" and u1: "\<And>a. a \<notin> set specFields \<Longrightarrow> h1 a = h a" by auto
  from Cons.IH [OF rec] obtain extra where
    s2: "sameButDocs h1 h'" and ex: "specFields' = ?L1 @ extra" "set extra \<subseteq> set rest"
    and u2: "\<And>a. a \<notin> set specFields' \<Longrightarrow> h' a = h1 a"
    by auto
  have "sameButDocs h h'" by (rule sameButDocs_trans [OF s1 s2])
  moreover have "\<exists>extra'. specFields' = specFields @ extra' \<and> set extra' \<subseteq> set (csf # rest)"
  proof (cases p)
    case True
    with ex show ?thesis by auto
  next
    case False
    with ex have "specFields' = specFields @ (csf # extra)" "set (csf # extra) \<subseteq> set (csf # rest)"
      by auto
    then show ?thesis by blast
  qed
  moreover have "h' a = h a" if "a \<notin> set specFields'" for a
  proof -
    from that ex have "a \<notin> set specFields" by (auto split: if_splits)
    with u1 u2 [OF that] show ?thesis by simp
  qed
  ultimately show ?case by blast
qed

lemma mergeComponents_frame:
  "mergeComponents pm h specFields comps = (res, h') \<Longrightarrow>
   sameButDocs h h'
   \<and> (\<forall>specFields'. res = Inr specFields' \<longrightarrow>
        (\<exists>extra. specFields' = specFields @ extra \<and> set extra \<subseteq> componentEntries pm comps)
        \<and> (\<forall>a. a \<notin> set specFields' \<longrightarrow> h' a = h a))"
proof (induction comps arbitrary: h specFields)
  case Nil
  then show ?case by (auto simp: sameButDocs_refl)
next
  case (Cons component rest)
  show ?case
  proof (cases "pm (ConfigPath component) (ComponentResources component) True False")
    case (Inl err)
    with Cons.prems show ?thesis by (auto simp: sameButDocs_refl)
  next
    case (Inr r)
    obtain h1 L1 where add: "addSpecFields h specFields (SpecFields r) = (h1, L1)" by fastforce
    with Cons.prems Inr have rec: "mergeComponents pm h1 L1 rest = (res, h')" by simp
    from addSpecFields_frame [OF add] obtain extra1 where
      s1: "sameButDocs h h1" and e1: "L1 = specFields @ extra1" "set extra1 \<subseteq> set (SpecFields r)"
      and u1: "\<And>a. a \<notin> set L1 \<Longrightarrow> h1 a = h a"
      by auto
    from Cons.IH [OF rec] have s2: "sameButDocs h1 h'"
      and r2: "\<And>L'. res = Inr L' \<Longrightarrow>
                 (\<exists>extra. L' = L1 @ extra \<and> set extra \<subseteq> componentEntries pm rest)
                 \<and> (\<forall>a. a \<notin> set L' \<longrightarrow> h' a = h1 a)"
      by auto
    have here: "set (SpecFields r) \<subseteq> componentEntries pm (component # rest)"
      using Inr by (auto simp: componentEntries_def)
    have later: "componentEntries pm rest \<subseteq> componentEntries pm (component # rest)"
      by (auto simp: componentEntries_def)
    have "sameButDocs h h'" by (rule sameButDocs_trans [OF s1 s2])
    moreover have "(\<exists>extra. L' = specFields @ extra
          \<and> set extra \<subseteq> componentEntries pm (component # rest))
        \<and> (\<forall>a. a \<notin> set L' \<longrightarrow> h' a = h a)" if res: "res = Inr L'" for L'
    proof -
      from r2 [OF res] obtain extra2 where
        e2: "L' = L1 @ extra2" "set extra2 \<subseteq> componentEntries pm rest"
        and u2: "\<And>a. a \<notin> set L' \<Longrightarrow> h' a = h1 a"
        by auto
      have "L' = specFields @ (extra1 @ extra2)" using e1 e2 by simp
      moreover have "set (extra1 @ extra2) \<subseteq> componentEntries pm (component # rest)"
        using e1(2) e2(2) here later by auto
      moreover have "h' a = h a" if "a \<notin> set L'" for a
      proof -
        from that e2 have "a \<notin> set L1" by simp
        with u1 u2 [OF that] show ?thesis by simp
      qed
      ultimately show ?thesis by blast
    qed
    ultimately show ?thesis by blast
  qed
qed

text \<open>
  Claim C5, as the code has it: \<open>SetResources\<close> changes no attribute of any
  \<open>APISpecField\<close> object other than its documentation lines and leaves the list of
  components as it is; on success the merged list is the collection's own list of
  pointers followed by pointers to entries of the components, which are shared and not
  copied, and every object outside the merged list is unchanged.
\<close>

theorem SetResources_frame:
  "SetResources pm c h workloadPath = (err, c', h') \<Longrightarrow>
   (\<forall>a. (h' a)\<lparr>DocumentationLines := DocumentationLines (h a)\<rparr> = h a)
   \<and> Components c' = Components c
   \<and> (err = None \<longrightarrow>
        (\<exists>resources extra.
            pm workloadPath (CollectionResources c) True True = Inr resources
            \<and> Spec_APISpecFields c' = SpecFields resources @ extra
            \<and> set extra \<subseteq> componentEntries pm (Components c))
        \<and> (\<forall>a. a \<notin> set (Spec_APISpecFields c') \<longrightarrow> h' a = h a))"
proof (cases "pm workloadPath (CollectionResources c) True True")
  case (Inl e)
  assume "SetResources pm c h workloadPath = (err, c', h')"
  with Inl show ?thesis by (auto simp: SetResources_def)
next
  case (Inr resources)
  assume run: "SetResources pm c h workloadPath = (err, c', h')"
  obtain res g where m: "mergeComponents pm h (SpecFields resources) (Components c) = (res, g)"
    by fastforce
  note fr = mergeComponents_frame [OF m]
  show ?thesis
  proof (cases res)
    case (Inl e)
    with run Inr m have "h' = g" "Components c' = Components c" "err \<noteq> None"
      by (auto simp: SetResources_def)
    with fr show ?thesis by (auto simp: sameButDocs_def)
  next
    case merged: (Inr specFields')
    with run Inr m have "h' = g" "Components c' = Components c"
      "Spec_APISpecFields c' = specFields'"
      by (auto simp: SetResources_def)
    with fr merged Inr show ?thesis by (simp add: sameButDocs_def)
  qed
qed

theorem SetResources_frame_witness:
  "(case SetResources samplePM sampleCollection (sampleHeap [''Request timeout''] [])
           ''collection.yaml'' of
      (err, c', h') \<Rightarrow>
        err = None \<and> Components c' = Components sampleCollection
        \<and> Spec_APISpecFields c' = [0, 1]
        \<and> h' 2 = sampleHeap [''Request timeout''] [] 2
        \<and> FieldName (h' 1) = ''timeout'')"
  using SetResources_frame
    [of samplePM sampleCollection "sampleHeap [''Request timeout''] []" "''collection.yaml''"
        None
        "fst (snd (SetResources samplePM sampleCollection (sampleHeap [''Request timeout''] [])
           ''collection.yaml''))"
        "snd (snd (SetResources samplePM sampleCollection (sampleHeap [''Request timeout''] [])
           ''collection.yaml''))"]
  by (simp add: merge_eval)

text \<open>
  The claim as stated fails on an entry of component A that entered the merged list:
  the non-empty documentation of component B is written to that very object.
\<close>

theorem SetResources_frame_counterexample:
  "(case SetResources samplePM sampleCollection (sampleHeap [] [''Request timeout''])
           ''collection.yaml'' of
      (err, c', h') \<Rightarrow>
        samplePM ''a.yaml'' [] True False = Inr (sampleResult [1])
        \<and> Spec_APISpecFields c' = [0, 1]
        \<and> DocumentationLines (sampleHeap [] [''Request timeout''] 1) = []
        \<and> DocumentationLines (h' 1) = [''Request timeout''])"
  by (simp add: merge_eval)

end
